theory Spec2Isabelle
  imports Complex_Main "HOL-Library.Word"
begin

section \<open>Binary64 numbers\<close>

text \<open>
  \<^verbatim>\<open>amrex::Real\<close> is \<^verbatim>\<open>double\<close> in the default build. Where a statement is about the
  numbers the code computes, and not about exact arithmetic, every \<open>+\<close>, \<open>-\<close>, \<open>*\<close> and
  \<open>/\<close> on finite operands delivers the exact result rounded to the nearest binary64
  number, ties to the even significand; no operations are fused. \<open>fl64 x\<close> is that rounding
  of the exact result \<open>x\<close>. The binary64 numbers around \<open>x\<close> are the multiples of
  \<open>ulp64 x\<close>, which is \<open>2^(e - 52)\<close> for \<open>2^e \<le> |x| < 2^(e + 1)\<close> and \<open>2^(-1074)\<close> below
  \<open>2^(-1022)\<close> (the subnormal numbers). A rounded result of magnitude \<open>2^1024\<close> or more is
  an infinity: \<open>None\<close>.
\<close>

text \<open>The nearest integer, ties to even.\<close>

definition rne :: "real \<Rightarrow> int" where
  "rne x = (let f = \<lfloor>x\<rfloor>; r = x - real_of_int f
            in if r < 1 / 2 then f else if 1 / 2 < r then f + 1
               else if even f then f else f + 1)"

definition ulp64 :: "real \<Rightarrow> real" where
  "ulp64 x = 2 powr (real_of_int (max \<lfloor>log 2 \<bar>x\<bar>\<rfloor> (- 1022)) - 52)"

definition fl64 :: "real \<Rightarrow> real option" where
  "fl64 x = (if x = 0 then Some 0
             else let r = real_of_int (rne (x / ulp64 x)) * ulp64 x
                  in if 2 ^ 1024 \<le> \<bar>r\<bar> then None else Some r)"

text \<open>
  A \<^verbatim>\<open>double\<close> as a value: a finite number, an infinity or a NaN. The sign of a zero and
  the sign of an infinity are not recorded.
\<close>

datatype double = Finite real | Infinite | NaN

definition round64 :: "real \<Rightarrow> double" where
  "round64 x = (case fl64 x of None \<Rightarrow> Infinite | Some r \<Rightarrow> Finite r)"

text \<open>\<open>*\<close> and \<open>/\<close> on doubles.\<close>

fun dmul :: "double \<Rightarrow> double \<Rightarrow> double" where
  "dmul (Finite a) (Finite b) = round64 (a * b)"
| "dmul (Finite a) Infinite = (if a = 0 then NaN else Infinite)"
| "dmul Infinite (Finite b) = (if b = 0 then NaN else Infinite)"
| "dmul Infinite Infinite = Infinite"
| "dmul NaN y = NaN"
| "dmul x NaN = NaN"

fun ddiv :: "double \<Rightarrow> double \<Rightarrow> double" where
  "ddiv (Finite a) (Finite b) =
     (if b = 0 then (if a = 0 then NaN else Infinite) else round64 (a / b))"
| "ddiv (Finite a) Infinite = Finite 0"
| "ddiv Infinite (Finite b) = Infinite"
| "ddiv Infinite Infinite = NaN"
| "ddiv NaN y = NaN"
| "ddiv x NaN = NaN"

section \<open>Compile-time integer power (amrex::Math::powi)\<close>

text \<open>
  \<^verbatim>\<open>template <int Power, typename T, enable_if<!is_integral<T>() || Power>=0>>
  constexpr T powi (T x)\<close> branches on the template argument \<open>Power\<close> and computes with the
  \<^verbatim>\<open>operator*\<close>, the \<^verbatim>\<open>operator/\<close> and the \<^verbatim>\<open>T(1)\<close> of its value type \<open>T\<close>. Both template
  arguments are arguments of the model: the type as the record of these three operations,
  of which no law is assumed, and \<open>Power\<close> as an integer. The \<^verbatim>\<open>enable_if\<close> condition only
  removes instances (a negative \<open>Power\<close> at an integral \<open>T\<close>, the only place where an
  integral \<open>T\<close> would divide) and has no counterpart here. The library already uses
  \<open>powi\<close> as an operator symbol, hence the prefix in the name.
\<close>

record 'a ops =
  op_mul :: "'a \<Rightarrow> 'a \<Rightarrow> 'a"
  op_div :: "'a \<Rightarrow> 'a \<Rightarrow> 'a"
  op_one :: "'a"

function amrex_powi :: "'a ops \<Rightarrow> int \<Rightarrow> 'a \<Rightarrow> 'a" where
  "amrex_powi T Power x =
     (if Power < 0 then op_div T (op_one T) (amrex_powi T (- Power) x)
      else if Power = 0 then op_one T
      else if Power = 1 then x
      else if Power = 2 then op_mul T x x
      else if Power mod 2 = 0 then amrex_powi T 2 (amrex_powi T (Power div 2) x)
      else op_mul T x (amrex_powi T (Power - 1) x))"
  by pat_completeness auto
termination
  by (relation "measure (\<lambda>(T, Power, x). if Power < 0 then nat (- Power) + 1 else nat Power)") auto

declare amrex_powi.simps [simp del]

text \<open>The \<open>n\<close>-fold product \<open>x * x * ... * x\<close>, formed from the left; \<open>T(1)\<close> for no factor.\<close>

primrec power_fold :: "'a ops \<Rightarrow> nat \<Rightarrow> 'a \<Rightarrow> 'a" where
  "power_fold T 0 x = op_one T"
| "power_fold T (Suc n) x = (if n = 0 then x else op_mul T (power_fold T n x) x)"

text \<open>
  Three value types: a type with exact arithmetic (the mathematical integers, the reals),
  \<^verbatim>\<open>unsigned int\<close> (the 32-bit words, arithmetic modulo \<open>2^32\<close>) and \<^verbatim>\<open>double\<close>.
\<close>

definition exact_ops :: "'a::{monoid_mult,divide} ops" where
  "exact_ops = \<lparr>op_mul = (*), op_div = (div), op_one = 1\<rparr>"

definition unsigned32 :: "32 word ops" where
  "unsigned32 = exact_ops"

definition binary64 :: "double ops" where
  "binary64 = \<lparr>op_mul = dmul, op_div = ddiv, op_one = Finite 1\<rparr>"

section \<open>Data model of the interpolation kernels\<close>

text \<open>
  The kernels of \<^verbatim>\<open>AMReX_TracerParticle_mod_K.H\<close> are compiled for one spatial dimension,
  the macro \<^verbatim>\<open>AMREX_SPACEDIM\<close> (1, 2 or 3). The macro is not part of the translated files,
  so the dimension is the first argument of every kernel.
\<close>

datatype spacedim = Dim1 | Dim2 | Dim3

fun AMREX_SPACEDIM :: "spacedim \<Rightarrow> int" where
  "AMREX_SPACEDIM Dim1 = 1"
| "AMREX_SPACEDIM Dim2 = 2"
| "AMREX_SPACEDIM Dim3 = 3"

text \<open>
  In the kernels \<^verbatim>\<open>amrex::Real\<close> and \<^verbatim>\<open>amrex::ParticleReal\<close> are idealised as
  \<^typ>\<open>real\<close> (exact arithmetic, the casts between them are the identity) and \<^verbatim>\<open>int\<close> as
  \<^typ>\<open>int\<close>; the index computation is given a second time in binary64 below.
  The collaborators of the kernels are accessors: \<^verbatim>\<open>GpuArray<Real,AMREX_SPACEDIM>\<close> and
  \<^verbatim>\<open>IntVect\<close> are read with \<^verbatim>\<open>[axis]\<close>, an \<^verbatim>\<open>Array4<Real const>\<close> with
  \<^verbatim>\<open>(i,j,k,n)\<close> (no bounds are checked by the kernels), a pointer with \<^verbatim>\<open>[d]\<close>, and the
  output buffer \<^verbatim>\<open>val\<close> is written with \<^verbatim>\<open>val[ctr]\<close>. Each is a function of its index.
\<close>

type_synonym GpuArray = "int \<Rightarrow> real"
type_synonym IntVect = "int \<Rightarrow> int"
type_synonym Array4 = "int \<Rightarrow> int \<Rightarrow> int \<Rightarrow> int \<Rightarrow> real"
type_synonym buffer = "int \<Rightarrow> real"

record particle =
  pos :: "int \<Rightarrow> real"
  idata :: "int \<Rightarrow> int"

definition TheZeroVector :: IntVect where
  "TheZeroVector = (\<lambda>ax. 0)"

definition TheUnitVector :: IntVect where
  "TheUnitVector = (\<lambda>ax. 1)"

text \<open>The C++ \<^verbatim>\<open>!x\<close> on an \<^verbatim>\<open>int\<close>, used as a number: 1 when \<open>x\<close> is 0, else 0.\<close>

definition lnot :: "int \<Rightarrow> int" where
  "lnot x = (if x = 0 then 1 else 0)"

section \<open>Regular coordinates\<close>

text \<open>
  \<^verbatim>\<open>lx = (Real(p.pos(0))-plo[0])*dxi[0] - static_cast<Real>(!is_nodal[d][0])*Real(0.5)\<close>
  and the same for \<open>ly\<close>, \<open>lz\<close>: the fractional index along axis \<open>ax\<close> for the staggering
  \<open>nodal = is_nodal[d]\<close>.
\<close>

definition l_frac :: "particle \<Rightarrow> GpuArray \<Rightarrow> GpuArray \<Rightarrow> IntVect \<Rightarrow> int \<Rightarrow> real" where
  "l_frac p plo dxi nodal ax =
     (pos p ax - plo ax) * dxi ax - real_of_int (lnot (nodal ax)) * 0.5"

text \<open>
  \<^verbatim>\<open>i0 = static_cast<int>(amrex::Math::floor(lx))\<close>, likewise \<open>j0\<close>, \<open>k0\<close>: the floor of
  the exact \<open>lx\<close>, as an index without bound (\<open>axis64\<close> below has the conversion to a
  32-bit \<^verbatim>\<open>int\<close>).
\<close>

definition lo_index :: "particle \<Rightarrow> GpuArray \<Rightarrow> GpuArray \<Rightarrow> IntVect \<Rightarrow> int \<Rightarrow> int" where
  "lo_index p plo dxi nodal ax = \<lfloor>l_frac p plo dxi nodal ax\<rfloor>"

text \<open>
  \<^verbatim>\<open>xint = lx - static_cast<Real>(i0)\<close>, likewise \<open>yint\<close>, \<open>zint\<close>: the exact remainder
  (\<open>axis64\<close> below has the rounded one).
\<close>

definition int_frac :: "particle \<Rightarrow> GpuArray \<Rightarrow> GpuArray \<Rightarrow> IntVect \<Rightarrow> int \<Rightarrow> real" where
  "int_frac p plo dxi nodal ax =
     l_frac p plo dxi nodal ax - real_of_int (lo_index p plo dxi nodal ax)"

text \<open>\<^verbatim>\<open>sx[] = {1.0 - xint, xint}\<close>, likewise \<open>sy\<close>, \<open>sz\<close>.\<close>

definition s_weights :: "particle \<Rightarrow> GpuArray \<Rightarrow> GpuArray \<Rightarrow> IntVect \<Rightarrow> int \<Rightarrow> real list" where
  "s_weights p plo dxi nodal ax =
     [1.0 - int_frac p plo dxi nodal ax, int_frac p plo dxi nodal ax]"

text \<open>
  The same steps for one axis as the code computes them in binary64 (lines 114 to 127):
  the rounded difference, product and shifted index \<open>lx\<close>, its floor (a double again),
  the conversion \<^verbatim>\<open>static_cast<int>\<close>, and the rounded remainder \<open>xint\<close>. The conversion of
  a double to \<^verbatim>\<open>int\<close> truncates, and it has a defined result only if the truncated value
  is an \<^verbatim>\<open>int\<close> (32 bits); \<open>None\<close> stands for no defined index, also after an overflow to
  infinity. The conversion of \<open>i0\<close> back to \<^verbatim>\<open>Real\<close> and the product with 0.5 are exact.
\<close>

definition static_cast_int :: "real \<Rightarrow> int option" where
  "static_cast_int x =
     (let t = (if 0 \<le> x then \<lfloor>x\<rfloor> else \<lceil>x\<rceil>)
      in if - (2 ^ 31) \<le> t \<and> t \<le> 2 ^ 31 - 1 then Some t else None)"

definition axis64 ::
  "particle \<Rightarrow> GpuArray \<Rightarrow> GpuArray \<Rightarrow> IntVect \<Rightarrow> int \<Rightarrow> (real \<times> int \<times> real) option" where
  "axis64 p plo dxi nodal ax =
     (case fl64 (pos p ax - plo ax) of None \<Rightarrow> None | Some t1 \<Rightarrow>
      (case fl64 (t1 * dxi ax) of None \<Rightarrow> None | Some t2 \<Rightarrow>
      (case fl64 (t2 - real_of_int (lnot (nodal ax)) * 0.5) of None \<Rightarrow> None | Some lx \<Rightarrow>
      (case static_cast_int (real_of_int \<lfloor>lx\<rfloor>) of None \<Rightarrow> None | Some i0 \<Rightarrow>
      (case fl64 (lx - real_of_int i0) of None \<Rightarrow> None | Some xint \<Rightarrow>
         Some (lx, i0, xint))))))"

text \<open>
  The corner loops of one component: \<^verbatim>\<open>val[ctr] += data(IntVect(i0+ii, j0+jj, k0+kk), comp) *
  sx[ii]*sy[jj]*sz[kk]\<close> with \<open>ii\<close> innermost, each index running over 0 and 1. The loops
  over \<open>jj\<close> and \<open>kk\<close> and their factors exist only from two and three dimensions on; an
  \<^verbatim>\<open>Array4\<close> read through a shorter \<^verbatim>\<open>IntVect\<close> has index 0 on the missing axes.
\<close>

fun corner_loops ::
  "spacedim \<Rightarrow> Array4 \<Rightarrow> (int \<Rightarrow> int) \<Rightarrow> (int \<Rightarrow> real list) \<Rightarrow> int \<Rightarrow> int \<Rightarrow> buffer \<Rightarrow> buffer" where
  "corner_loops Dim1 arr lo s cmp ctr val =
     fold (\<lambda>ii val. val(ctr := val ctr + arr (lo 0 + ii) 0 0 cmp * s 0 ! nat ii)) [0, 1] val"
| "corner_loops Dim2 arr lo s cmp ctr val =
     fold (\<lambda>jj. fold (\<lambda>ii val.
         val(ctr := val ctr + arr (lo 0 + ii) (lo 1 + jj) 0 cmp * s 0 ! nat ii * s 1 ! nat jj))
       [0, 1]) [0, 1] val"
| "corner_loops Dim3 arr lo s cmp ctr val =
     fold (\<lambda>kk. fold (\<lambda>jj. fold (\<lambda>ii val.
         val(ctr := val ctr + arr (lo 0 + ii) (lo 1 + jj) (lo 2 + kk) cmp
                                * s 0 ! nat ii * s 1 ! nat jj * s 2 ! nat kk))
       [0, 1]) [0, 1]) [0, 1] val"

text \<open>
  The body of \<^verbatim>\<open>for (int comp = start_comp; comp < ncomp; ++comp)\<close>: clear \<open>val[ctr]\<close>,
  accumulate the corners, advance \<open>ctr\<close>.
\<close>

definition comp_step ::
  "spacedim \<Rightarrow> Array4 \<Rightarrow> (int \<Rightarrow> int) \<Rightarrow> (int \<Rightarrow> real list) \<Rightarrow> int \<Rightarrow> buffer \<times> int \<Rightarrow> buffer \<times> int" where
  "comp_step D arr lo s cmp st =
     (case st of (val, ctr) \<Rightarrow> (corner_loops D arr lo s cmp ctr (val(ctr := 0.0)), ctr + 1))"

text \<open>The body of \<^verbatim>\<open>for (int d = 0; d < num_arrays; d++)\<close>.\<close>

definition array_step ::
  "spacedim \<Rightarrow> particle \<Rightarrow> GpuArray \<Rightarrow> GpuArray \<Rightarrow> (int \<Rightarrow> Array4) \<Rightarrow> (int \<Rightarrow> IntVect) \<Rightarrow>
   int \<Rightarrow> int \<Rightarrow> int \<Rightarrow> buffer \<times> int \<Rightarrow> buffer \<times> int" where
  "array_step D p plo dxi data_arr is_nodal start_comp ncomp d st =
     fold (comp_step D (data_arr d) (lo_index p plo dxi (is_nodal d))
                       (s_weights p plo dxi (is_nodal d)))
       [start_comp..ncomp - 1] st"

text \<open>
  \<^verbatim>\<open>linear_interpolate_to_particle\<close>. The buffer \<open>val\<close> is passed in and the written buffer
  is returned; \<^verbatim>\<open>AMREX_ASSERT(val != nullptr)\<close> is a debug check on the pointer and has
  no counterpart here.
\<close>

definition linear_interpolate_to_particle ::
  "spacedim \<Rightarrow> particle \<Rightarrow> GpuArray \<Rightarrow> GpuArray \<Rightarrow> (int \<Rightarrow> Array4) \<Rightarrow> buffer \<Rightarrow> (int \<Rightarrow> IntVect) \<Rightarrow>
   int \<Rightarrow> int \<Rightarrow> int \<Rightarrow> buffer" where
  "linear_interpolate_to_particle D p plo dxi data_arr val is_nodal start_comp ncomp num_arrays =
     fst (fold (array_step D p plo dxi data_arr is_nodal start_comp ncomp)
            [0..num_arrays - 1] (val, 0))"

text \<open>
  The convenience kernels. \<^verbatim>\<open>&data_arr\<close> and \<^verbatim>\<open>&is_nodal\<close> point to a single object,
  read at index 0 only.
\<close>

definition cic_interpolate_cc ::
  "spacedim \<Rightarrow> particle \<Rightarrow> GpuArray \<Rightarrow> GpuArray \<Rightarrow> Array4 \<Rightarrow> buffer \<Rightarrow> int \<Rightarrow> buffer" where
  "cic_interpolate_cc D p plo dxi data_arr val M =
     (let start_comp = 0; ncomp_per_array = M; num_arrays = 1; is_nodal = TheZeroVector
      in linear_interpolate_to_particle D p plo dxi (\<lambda>d. data_arr) val (\<lambda>d. is_nodal)
           start_comp ncomp_per_array num_arrays)"

definition cic_interpolate ::
  "spacedim \<Rightarrow> particle \<Rightarrow> GpuArray \<Rightarrow> GpuArray \<Rightarrow> Array4 \<Rightarrow> buffer \<Rightarrow> int \<Rightarrow> buffer" where
  "cic_interpolate D p plo dxi data_arr val M = cic_interpolate_cc D p plo dxi data_arr val M"

definition cic_interpolate_nd ::
  "spacedim \<Rightarrow> particle \<Rightarrow> GpuArray \<Rightarrow> GpuArray \<Rightarrow> Array4 \<Rightarrow> buffer \<Rightarrow> int \<Rightarrow> buffer" where
  "cic_interpolate_nd D p plo dxi data_arr val M =
     (let start_comp = 0; ncomp_per_array = M; num_arrays = 1; is_nodal = TheUnitVector
      in linear_interpolate_to_particle D p plo dxi (\<lambda>d. data_arr) val (\<lambda>d. is_nodal)
           start_comp ncomp_per_array num_arrays)"

text \<open>
  \<^verbatim>\<open>IntVect is_nodal[AMREX_SPACEDIM]; for (d...) { is_nodal[d] = TheZeroVector();
  is_nodal[d][d] = 1; }\<close>: the local array starts with default (zero) vectors.
\<close>

definition mac_is_nodal :: "spacedim \<Rightarrow> int \<Rightarrow> IntVect" where
  "mac_is_nodal D =
     fold (\<lambda>d is_nodal. is_nodal(d := TheZeroVector(d := 1)))
       [0..AMREX_SPACEDIM D - 1] (\<lambda>d. TheZeroVector)"

definition mac_interpolate ::
  "spacedim \<Rightarrow> particle \<Rightarrow> GpuArray \<Rightarrow> GpuArray \<Rightarrow> (int \<Rightarrow> Array4) \<Rightarrow> buffer \<Rightarrow> buffer" where
  "mac_interpolate D p plo dxi data_arr val =
     (let start_comp = 0; ncomp_per_array = 1; num_arrays = AMREX_SPACEDIM D
      in linear_interpolate_to_particle D p plo dxi data_arr val (mac_is_nodal D)
           start_comp ncomp_per_array num_arrays)"

section \<open>Terrain-fitted coordinates\<close>

text \<open>
  The quotients that give the vertical weights are plain divisions of floating-point
  numbers. With a zero divisor such a division yields an infinity or a NaN, and the kernel
  goes on computing with it: under the subtractions, multiplications and additions that
  follow, an infinity or NaN never becomes a finite number again. A value of the
  terrain-fitted kernel is therefore \<open>Some r\<close> for the (finite) number \<open>r\<close>, or \<open>None\<close>
  for an infinity or a NaN. The field data, the heights and the horizontal weights are
  finite; arithmetic on finite numbers is exact, as in the regular kernel.
\<close>

type_synonym xreal = "real option"
type_synonym xbuffer = "int \<Rightarrow> xreal"

text \<open>\<open>a / b\<close> for finite \<open>a\<close>, \<open>b\<close>.\<close>

definition xdiv :: "real \<Rightarrow> real \<Rightarrow> xreal" where
  "xdiv a b = (if b = 0 then None else Some (a / b))"

text \<open>\<open>a - y\<close> and \<open>a * y\<close> for a finite \<open>a\<close>, and \<open>x + y\<close>.\<close>

definition xsub :: "real \<Rightarrow> xreal \<Rightarrow> xreal" where
  "xsub a y = (case y of None \<Rightarrow> None | Some r \<Rightarrow> Some (a - r))"

definition xmul :: "real \<Rightarrow> xreal \<Rightarrow> xreal" where
  "xmul a y = (case y of None \<Rightarrow> None | Some r \<Rightarrow> Some (a * r))"

definition xadd :: "xreal \<Rightarrow> xreal \<Rightarrow> xreal" where
  "xadd x y = (case x of None \<Rightarrow> None
               | Some a \<Rightarrow> (case y of None \<Rightarrow> None | Some b \<Rightarrow> Some (a + b)))"

text \<open>
  \<^verbatim>\<open>amrex::Abort(msg)\<close> prints the message and ends the program; \<open>Abort\<close> records the
  message and the output buffer as it stands at that point.
\<close>

datatype error = Abort string xbuffer

subsection \<open>Two dimensions\<close>

text \<open>
  A read \<^verbatim>\<open>height_arr(i,j,k)\<close> without a component is a read of component 0.
  The average of four height samples that the 2D branch writes out three times
  (\<open>hlo_xlo\<close> at \<open>(i0, j)\<close>, \<open>hlo_xhi\<close> at \<open>(i0 + 1, j)\<close>, \<open>ht[yctr]\<close> at
  \<open>(i0 + ii, j0 + jj)\<close>), with the summands in the source's order.
\<close>

definition height_avg2 :: "Array4 \<Rightarrow> IntVect \<Rightarrow> int \<Rightarrow> int \<Rightarrow> int \<Rightarrow> real" where
  "height_avg2 height_arr nodal i j k =
     0.25 * (height_arr i j k 0
           + height_arr (i + lnot (nodal 0)) j k 0
           + height_arr i (j + lnot (nodal 1)) k 0
           + height_arr (i + lnot (nodal 0)) (j + lnot (nodal 1)) k 0)"

text \<open>\<^verbatim>\<open>height_at_px = sx[0] * hlo_xlo + sx[1] * hlo_xhi\<close> with \<open>k = 0\<close>, \<open>j = p.idata(0)\<close>.\<close>

definition height_at_px :: "particle \<Rightarrow> GpuArray \<Rightarrow> GpuArray \<Rightarrow> Array4 \<Rightarrow> IntVect \<Rightarrow> real" where
  "height_at_px p plo dxi height_arr nodal =
     (let i0 = lo_index p plo dxi nodal 0;
          k = 0;
          j = idata p 0;
          hlo_xlo = height_avg2 height_arr nodal i0 j k;
          hlo_xhi = height_avg2 height_arr nodal (i0 + 1) j k;
          sx = s_weights p plo dxi nodal 0
      in sx ! 0 * hlo_xlo + sx ! 1 * hlo_xhi)"

text \<open>\<^verbatim>\<open>j0 = (Real(p.pos(1)) >= height_at_px) ? j : j-1\<close>.\<close>

definition j0_z :: "particle \<Rightarrow> GpuArray \<Rightarrow> GpuArray \<Rightarrow> Array4 \<Rightarrow> IntVect \<Rightarrow> int" where
  "j0_z p plo dxi height_arr nodal =
     (let j = idata p 0
      in if pos p 1 \<ge> height_at_px p plo dxi height_arr nodal then j else j - 1)"

text \<open>The array \<open>ht[4]\<close>, filled at \<open>yctr = 0, 1, 2, 3\<close> by the loops over \<open>ii\<close> and \<open>jj\<close>.\<close>

definition ht2 :: "particle \<Rightarrow> GpuArray \<Rightarrow> GpuArray \<Rightarrow> Array4 \<Rightarrow> IntVect \<Rightarrow> real list" where
  "ht2 p plo dxi height_arr nodal =
     (let i0 = lo_index p plo dxi nodal 0;
          j0 = j0_z p plo dxi height_arr nodal;
          k = 0
      in [height_avg2 height_arr nodal (i0 + ii) (j0 + jj) k. ii \<leftarrow> [0, 1], jj \<leftarrow> [0, 1]])"

text \<open>
  \<^verbatim>\<open>hint_ilo = (p.pos(1) - ht[0]) / (ht[1] - ht[0])\<close>, \<open>hint_ihi\<close> from \<open>ht[2]\<close>,
  \<open>ht[3]\<close>, and \<^verbatim>\<open>sy[] = {1 - hint_ilo, 1 - hint_ihi, hint_ilo, hint_ihi}\<close>.
\<close>

definition sy_z :: "particle \<Rightarrow> GpuArray \<Rightarrow> GpuArray \<Rightarrow> Array4 \<Rightarrow> IntVect \<Rightarrow> xreal list" where
  "sy_z p plo dxi height_arr nodal =
     (let ht = ht2 p plo dxi height_arr nodal;
          hint_ilo = xdiv (pos p 1 - ht ! 0) (ht ! 1 - ht ! 0);
          hint_ihi = xdiv (pos p 1 - ht ! 2) (ht ! 3 - ht ! 2)
      in [xsub 1 hint_ilo, xsub 1 hint_ihi, hint_ilo, hint_ihi])"

text \<open>
  The component loop's body in 2D: \<open>k0 = 0\<close>, \<open>sy_ctr\<close> counts the corners, \<open>jj\<close> outer,
  \<open>ii\<close> inner.
\<close>

definition comp_step_z2 ::
  "Array4 \<Rightarrow> int \<Rightarrow> int \<Rightarrow> real list \<Rightarrow> xreal list \<Rightarrow> int \<Rightarrow> xbuffer \<times> int \<Rightarrow> xbuffer \<times> int" where
  "comp_step_z2 arr i0 j0 sx sy cmp st =
     (case st of (val, ctr) \<Rightarrow>
        (let k0 = 0
         in (fst (fold (\<lambda>jj. fold (\<lambda>ii (val, sy_ctr).
                    (val(ctr := xadd (val ctr)
                                  (xmul (arr (i0 + ii) (j0 + jj) k0 cmp * sx ! nat ii) (sy ! sy_ctr))),
                     Suc sy_ctr))
                  [0, 1]) [0, 1] (val(ctr := Some 0), 0)),
             ctr + 1)))"

definition array_step_z2 ::
  "particle \<Rightarrow> GpuArray \<Rightarrow> GpuArray \<Rightarrow> (int \<Rightarrow> Array4) \<Rightarrow> Array4 \<Rightarrow> (int \<Rightarrow> IntVect) \<Rightarrow>
   int \<Rightarrow> int \<Rightarrow> int \<Rightarrow> xbuffer \<times> int \<Rightarrow> xbuffer \<times> int" where
  "array_step_z2 p plo dxi data_arr height_arr is_nodal start_comp ncomp d st =
     fold (comp_step_z2 (data_arr d) (lo_index p plo dxi (is_nodal d) 0)
             (j0_z p plo dxi height_arr (is_nodal d))
             (s_weights p plo dxi (is_nodal d) 0)
             (sy_z p plo dxi height_arr (is_nodal d)))
       [start_comp..ncomp - 1] st"

subsection \<open>Three dimensions\<close>

text \<open>\<open>hlo[ilo]\<close>: the average of eight height samples around \<open>(i, j, k)\<close>.\<close>

definition hlo_avg3 :: "Array4 \<Rightarrow> IntVect \<Rightarrow> int \<Rightarrow> int \<Rightarrow> int \<Rightarrow> real" where
  "hlo_avg3 height_arr nodal i j k =
     0.125 * (height_arr i j k 0
            + height_arr (i + lnot (nodal 0)) j k 0
            + height_arr i (j + lnot (nodal 1)) k 0
            + height_arr (i + lnot (nodal 0)) (j + lnot (nodal 1)) k 0
            + height_arr i j (k + lnot (nodal 2)) 0
            + height_arr (i + lnot (nodal 0)) j (k + lnot (nodal 2)) 0
            + height_arr i (j + lnot (nodal 1)) (k + lnot (nodal 2)) 0
            + height_arr (i + lnot (nodal 0)) (j + lnot (nodal 1)) (k + lnot (nodal 2)) 0)"

text \<open>
  \<^verbatim>\<open>height_at_pxy += hlo[ilo] * sx[ii] * sy[jj]\<close> over \<open>ii\<close> (outer) and \<open>jj\<close>, from 0,
  with \<open>k = p.idata(0)\<close>; each \<open>hlo[ilo]\<close> is used right after it is stored.
\<close>

definition height_at_pxy :: "particle \<Rightarrow> GpuArray \<Rightarrow> GpuArray \<Rightarrow> Array4 \<Rightarrow> IntVect \<Rightarrow> real" where
  "height_at_pxy p plo dxi height_arr nodal =
     (let i0 = lo_index p plo dxi nodal 0;
          j0 = lo_index p plo dxi nodal 1;
          k = idata p 0;
          sx = s_weights p plo dxi nodal 0;
          sy = s_weights p plo dxi nodal 1
      in fold (\<lambda>ii. fold (\<lambda>jj height_at_pxy.
             height_at_pxy + hlo_avg3 height_arr nodal (i0 + ii) (j0 + jj) k * sx ! nat ii * sy ! nat jj)
           [0, 1]) [0, 1] 0)"

text \<open>\<^verbatim>\<open>k0 = (Real(p.pos(2)) >= height_at_pxy) ? k : k-1\<close>.\<close>

definition k0_z :: "particle \<Rightarrow> GpuArray \<Rightarrow> GpuArray \<Rightarrow> Array4 \<Rightarrow> IntVect \<Rightarrow> int" where
  "k0_z p plo dxi height_arr nodal =
     (let k = idata p 0
      in if pos p 2 \<ge> height_at_pxy p plo dxi height_arr nodal then k else k - 1)"

text \<open>\<open>ht[zctr]\<close>: the eight samples again, in the order of the second loop nest.\<close>

definition ht_avg3 :: "Array4 \<Rightarrow> IntVect \<Rightarrow> int \<Rightarrow> int \<Rightarrow> int \<Rightarrow> real" where
  "ht_avg3 height_arr nodal i j k =
     0.125 * (height_arr i j k 0
            + height_arr i j (k + lnot (nodal 2)) 0
            + height_arr i (j + lnot (nodal 1)) k 0
            + height_arr i (j + lnot (nodal 1)) (k + lnot (nodal 2)) 0
            + height_arr (i + lnot (nodal 0)) j k 0
            + height_arr (i + lnot (nodal 0)) j (k + lnot (nodal 2)) 0
            + height_arr (i + lnot (nodal 0)) (j + lnot (nodal 1)) k 0
            + height_arr (i + lnot (nodal 0)) (j + lnot (nodal 1)) (k + lnot (nodal 2)) 0)"

definition ht3 :: "particle \<Rightarrow> GpuArray \<Rightarrow> GpuArray \<Rightarrow> Array4 \<Rightarrow> IntVect \<Rightarrow> real list" where
  "ht3 p plo dxi height_arr nodal =
     (let i0 = lo_index p plo dxi nodal 0;
          j0 = lo_index p plo dxi nodal 1;
          k0 = k0_z p plo dxi height_arr nodal
      in [ht_avg3 height_arr nodal (i0 + ii) (j0 + jj) (k0 + kk).
            ii \<leftarrow> [0, 1], jj \<leftarrow> [0, 1], kk \<leftarrow> [0, 1]])"

text \<open>The four \<open>hint_*\<close> quotients and the array \<open>sz[8]\<close>.\<close>

definition sz_z :: "particle \<Rightarrow> GpuArray \<Rightarrow> GpuArray \<Rightarrow> Array4 \<Rightarrow> IntVect \<Rightarrow> xreal list" where
  "sz_z p plo dxi height_arr nodal =
     (let ht = ht3 p plo dxi height_arr nodal;
          hint_ilojlo = xdiv (pos p 2 - ht ! 0) (ht ! 1 - ht ! 0);
          hint_ilojhi = xdiv (pos p 2 - ht ! 2) (ht ! 3 - ht ! 2);
          hint_ihijlo = xdiv (pos p 2 - ht ! 4) (ht ! 5 - ht ! 4);
          hint_ihijhi = xdiv (pos p 2 - ht ! 6) (ht ! 7 - ht ! 6)
      in [xsub 1 hint_ilojlo, xsub 1 hint_ihijlo, xsub 1 hint_ilojhi, xsub 1 hint_ihijhi,
          hint_ilojlo, hint_ihijlo, hint_ilojhi, hint_ihijhi])"

text \<open>The component loop's body in 3D: \<open>sz_ctr\<close> counts the corners, \<open>kk\<close> outermost.\<close>

definition comp_step_z3 ::
  "Array4 \<Rightarrow> int \<Rightarrow> int \<Rightarrow> int \<Rightarrow> real list \<Rightarrow> real list \<Rightarrow> xreal list \<Rightarrow> int \<Rightarrow>
   xbuffer \<times> int \<Rightarrow> xbuffer \<times> int" where
  "comp_step_z3 arr i0 j0 k0 sx sy sz cmp st =
     (case st of (val, ctr) \<Rightarrow>
        (fst (fold (\<lambda>kk. fold (\<lambda>jj. fold (\<lambda>ii (val, sz_ctr).
                 (val(ctr := xadd (val ctr)
                               (xmul (arr (i0 + ii) (j0 + jj) (k0 + kk) cmp
                                        * sx ! nat ii * sy ! nat jj) (sz ! sz_ctr))),
                  Suc sz_ctr))
               [0, 1]) [0, 1]) [0, 1] (val(ctr := Some 0), 0)),
         ctr + 1))"

definition array_step_z3 ::
  "particle \<Rightarrow> GpuArray \<Rightarrow> GpuArray \<Rightarrow> (int \<Rightarrow> Array4) \<Rightarrow> Array4 \<Rightarrow> (int \<Rightarrow> IntVect) \<Rightarrow>
   int \<Rightarrow> int \<Rightarrow> int \<Rightarrow> xbuffer \<times> int \<Rightarrow> xbuffer \<times> int" where
  "array_step_z3 p plo dxi data_arr height_arr is_nodal start_comp ncomp d st =
     fold (comp_step_z3 (data_arr d) (lo_index p plo dxi (is_nodal d) 0)
             (lo_index p plo dxi (is_nodal d) 1)
             (k0_z p plo dxi height_arr (is_nodal d))
             (s_weights p plo dxi (is_nodal d) 0)
             (s_weights p plo dxi (is_nodal d) 1)
             (sz_z p plo dxi height_arr (is_nodal d)))
       [start_comp..ncomp - 1] st"

subsection \<open>The kernel and its wrappers\<close>

definition abort_1d :: string where
  "abort_1d = '' Terrain fitted grid interpolation is not supported in 1D'' @ [CHR 0x0A]"

text \<open>
  \<^verbatim>\<open>linear_interpolate_to_particle_z\<close>: the 1D build aborts, the others run the loop over
  the arrays and return.
\<close>

fun linear_interpolate_to_particle_z ::
  "spacedim \<Rightarrow> particle \<Rightarrow> GpuArray \<Rightarrow> GpuArray \<Rightarrow> (int \<Rightarrow> Array4) \<Rightarrow> Array4 \<Rightarrow> xbuffer \<Rightarrow>
   (int \<Rightarrow> IntVect) \<Rightarrow> int \<Rightarrow> int \<Rightarrow> int \<Rightarrow> error + xbuffer" where
  "linear_interpolate_to_particle_z Dim1 p plo dxi data_arr height_arr val is_nodal
       start_comp ncomp num_arrays =
     Inl (Abort abort_1d val)"
| "linear_interpolate_to_particle_z Dim2 p plo dxi data_arr height_arr val is_nodal
       start_comp ncomp num_arrays =
     Inr (fst (fold (array_step_z2 p plo dxi data_arr height_arr is_nodal start_comp ncomp)
                 [0..num_arrays - 1] (val, 0)))"
| "linear_interpolate_to_particle_z Dim3 p plo dxi data_arr height_arr val is_nodal
       start_comp ncomp num_arrays =
     Inr (fst (fold (array_step_z3 p plo dxi data_arr height_arr is_nodal start_comp ncomp)
                 [0..num_arrays - 1] (val, 0)))"

definition cic_interpolate_cc_mapped_z ::
  "spacedim \<Rightarrow> particle \<Rightarrow> GpuArray \<Rightarrow> GpuArray \<Rightarrow> Array4 \<Rightarrow> Array4 \<Rightarrow> xbuffer \<Rightarrow> int \<Rightarrow> error + xbuffer" where
  "cic_interpolate_cc_mapped_z D p plo dxi data_arr height_arr val M =
     (let icomp = 0; ncomp_per_array = M; num_arrays = 1; is_nodal = TheZeroVector
      in linear_interpolate_to_particle_z D p plo dxi (\<lambda>d. data_arr) height_arr val
           (\<lambda>d. is_nodal) icomp ncomp_per_array num_arrays)"

definition cic_interpolate_mapped_z ::
  "spacedim \<Rightarrow> particle \<Rightarrow> GpuArray \<Rightarrow> GpuArray \<Rightarrow> Array4 \<Rightarrow> Array4 \<Rightarrow> xbuffer \<Rightarrow> int \<Rightarrow> error + xbuffer" where
  "cic_interpolate_mapped_z D p plo dxi data_arr height_arr val M =
     cic_interpolate_cc_mapped_z D p plo dxi data_arr height_arr val M"

definition cic_interpolate_nd_mapped_z ::
  "spacedim \<Rightarrow> particle \<Rightarrow> GpuArray \<Rightarrow> GpuArray \<Rightarrow> Array4 \<Rightarrow> Array4 \<Rightarrow> xbuffer \<Rightarrow> int \<Rightarrow> error + xbuffer" where
  "cic_interpolate_nd_mapped_z D p plo dxi data_arr height_arr val M =
     (let icomp = 0; ncomp_per_array = M; num_arrays = 1; is_nodal = TheUnitVector
      in linear_interpolate_to_particle_z D p plo dxi (\<lambda>d. data_arr) height_arr val
           (\<lambda>d. is_nodal) icomp ncomp_per_array num_arrays)"

definition mac_interpolate_mapped_z ::
  "spacedim \<Rightarrow> particle \<Rightarrow> GpuArray \<Rightarrow> GpuArray \<Rightarrow> (int \<Rightarrow> Array4) \<Rightarrow> Array4 \<Rightarrow> xbuffer \<Rightarrow> error + xbuffer" where
  "mac_interpolate_mapped_z D p plo dxi data_arr height_arr val =
     (let icomp = 0; ncomp_per_array = 1; num_arrays = AMREX_SPACEDIM D
      in linear_interpolate_to_particle_z D p plo dxi data_arr height_arr val (mac_is_nodal D)
           icomp ncomp_per_array num_arrays)"

section \<open>Closed forms used in the statements\<close>

text \<open>
  The value one component receives, written as the sum over the corners of the stencil
  (the corner loops add exactly these terms to a cleared \<open>val[ctr]\<close>).
\<close>

fun tensor_sum ::
  "spacedim \<Rightarrow> Array4 \<Rightarrow> (int \<Rightarrow> int) \<Rightarrow> (int \<Rightarrow> real list) \<Rightarrow> int \<Rightarrow> real" where
  "tensor_sum Dim1 arr lo s cmp =
     (\<Sum>ii\<leftarrow>[0, 1]. arr (lo 0 + ii) 0 0 cmp * s 0 ! nat ii)"
| "tensor_sum Dim2 arr lo s cmp =
     (\<Sum>jj\<leftarrow>[0, 1]. \<Sum>ii\<leftarrow>[0, 1]. arr (lo 0 + ii) (lo 1 + jj) 0 cmp * (s 0 ! nat ii * s 1 ! nat jj))"
| "tensor_sum Dim3 arr lo s cmp =
     (\<Sum>kk\<leftarrow>[0, 1]. \<Sum>jj\<leftarrow>[0, 1]. \<Sum>ii\<leftarrow>[0, 1].
        arr (lo 0 + ii) (lo 1 + jj) (lo 2 + kk) cmp * (s 0 ! nat ii * s 1 ! nat jj * s 2 ! nat kk))"

text \<open>The number of passes of \<^verbatim>\<open>for (comp = start_comp; comp < ncomp; ++comp)\<close>.\<close>

definition n_written :: "int \<Rightarrow> int \<Rightarrow> int" where
  "n_written start_comp ncomp = max 0 (ncomp - start_comp)"

definition interp_at ::
  "spacedim \<Rightarrow> particle \<Rightarrow> GpuArray \<Rightarrow> GpuArray \<Rightarrow> Array4 \<Rightarrow> IntVect \<Rightarrow> int \<Rightarrow> real" where
  "interp_at D p plo dxi arr nodal cmp =
     tensor_sum D arr (lo_index p plo dxi nodal) (s_weights p plo dxi nodal) cmp"

text \<open>
  The factors \<^verbatim>\<open>AMREX_D_TERM(sx[ii],*sy[jj],*sz[kk])\<close> that the corner loops multiply the
  field values with, listed in the order of the loops (\<open>ii\<close> innermost).
\<close>

fun corner_weights :: "spacedim \<Rightarrow> (int \<Rightarrow> real list) \<Rightarrow> real list" where
  "corner_weights Dim1 s = [s 0 ! nat ii. ii \<leftarrow> [0, 1]]"
| "corner_weights Dim2 s = [s 0 ! nat ii * s 1 ! nat jj. jj \<leftarrow> [0, 1], ii \<leftarrow> [0, 1]]"
| "corner_weights Dim3 s =
     [s 0 ! nat ii * s 1 ! nat jj * s 2 ! nat kk. kk \<leftarrow> [0, 1], jj \<leftarrow> [0, 1], ii \<leftarrow> [0, 1]]"

text \<open>
  The staggering of the three convenience kernels in the words of the specification:
  every axis cell-centred, every axis nodal, and field \<open>d\<close> nodal exactly in axis \<open>d\<close>.
\<close>

definition spec_cell_centered :: "int \<Rightarrow> IntVect" where
  "spec_cell_centered d = (\<lambda>ax. 0)"

definition spec_node_centered :: "int \<Rightarrow> IntVect" where
  "spec_node_centered d = (\<lambda>ax. 1)"

definition spec_face_centered :: "int \<Rightarrow> IntVect" where
  "spec_face_centered d = (\<lambda>ax. if ax = d then 1 else 0)"















section \<open>The kernel in closed form\<close>

lemma corner_loops_eq:
  "corner_loops D arr lo s cmp ctr val = val(ctr := val ctr + tensor_sum D arr lo s cmp)"
  by (cases D) (simp_all add: algebra_simps)

lemma comp_step_eq:
  "comp_step D arr lo s cmp (val, ctr) = (val(ctr := tensor_sum D arr lo s cmp), ctr + 1)"
  by (simp add: comp_step_def corner_loops_eq)

text \<open>
  A loop over components whose body stores one value at \<open>val[ctr]\<close> and advances \<open>ctr\<close>
  fills consecutive entries, one per pass.
\<close>

lemma fold_writes:
  assumes "\<And>c val ctr. step c (val, ctr) = (val(ctr := f c), ctr + 1)"
  shows "fold step cs (val, ctr) =
     (\<lambda>i. if ctr \<le> i \<and> i < ctr + int (length cs) then f (cs ! nat (i - ctr)) else val i,
      ctr + int (length cs))"
proof (induction cs arbitrary: val ctr)
  case Nil
  then show ?case by (auto simp: fun_eq_iff)
next
  case (Cons c cs)
  have "nat (i - ctr) = Suc (nat (i - (ctr + 1)))" if "ctr + 1 \<le> i" for i
    using that by linarith
  then show ?case
    by (auto simp: assms Cons.IH fun_eq_iff)
qed

lemma fold_writes_upto:
  assumes "\<And>c val ctr. step c (val, ctr) = (val(ctr := f c), ctr + 1)"
  shows "fold step [start_comp..ncomp - 1] (val, ctr) =
     (\<lambda>i. if ctr \<le> i \<and> i < ctr + n_written start_comp ncomp
           then f (start_comp + (i - ctr)) else val i,
      ctr + n_written start_comp ncomp)"
proof -
  have len: "int (length [start_comp..ncomp - 1]) = n_written start_comp ncomp"
    by (simp add: n_written_def)
  have nth: "[start_comp..ncomp - 1] ! nat (i - ctr) = start_comp + (i - ctr)"
    if "ctr \<le> i" "i < ctr + n_written start_comp ncomp" for i
  proof -
    have "start_comp + int (nat (i - ctr)) \<le> ncomp - 1"
      using that by (simp add: n_written_def)
    then have "[start_comp..ncomp - 1] ! nat (i - ctr) = start_comp + int (nat (i - ctr))"
      by (rule nth_upto)
    then show ?thesis using that by simp
  qed
  show ?thesis
    unfolding fold_writes [of step f, OF assms] len
    using nth by (simp add: fun_eq_iff)
qed

lemma array_step_eq:
  "array_step D p plo dxi data_arr is_nodal start_comp ncomp d (val, ctr) =
     (\<lambda>i. if ctr \<le> i \<and> i < ctr + n_written start_comp ncomp
           then interp_at D p plo dxi (data_arr d) (is_nodal d) (start_comp + (i - ctr))
           else val i,
      ctr + n_written start_comp ncomp)"
  unfolding array_step_def interp_at_def
  by (rule fold_writes_upto) (rule comp_step_eq)

text \<open>
  A loop over arrays whose body fills \<open>n\<close> consecutive entries and advances \<open>ctr\<close> by
  \<open>n\<close> fills \<open>n\<close> entries per array, array after array.
\<close>

lemma fold_arrays:
  assumes step: "\<And>d val ctr. astep d (val, ctr) =
      (\<lambda>i. if ctr \<le> i \<and> i < ctr + n then f d (sc + (i - ctr)) else val i, ctr + n)"
    and n0: "0 \<le> n"
  shows "fold astep ds (val, ctr) =
     (\<lambda>i. if ctr \<le> i \<and> i < ctr + int (length ds) * n
           then f (ds ! nat ((i - ctr) div n)) (sc + (i - ctr) mod n) else val i,
      ctr + int (length ds) * n)"
proof (induction ds arbitrary: val ctr)
  case Nil
  then show ?case by (auto simp: fun_eq_iff)
next
  case (Cons d ds)
  have pointwise:
    "(if ctr + n \<le> i \<and> i < ctr + n + int (length ds) * n
        then f (ds ! nat ((i - (ctr + n)) div n)) (sc + (i - (ctr + n)) mod n)
        else (if ctr \<le> i \<and> i < ctr + n then f d (sc + (i - ctr)) else val i)) =
     (if ctr \<le> i \<and> i < ctr + int (length (d # ds)) * n
        then f ((d # ds) ! nat ((i - ctr) div n)) (sc + (i - ctr) mod n) else val i)" for i
  proof (cases "0 < n")
    case False
    with n0 have "n = 0" by simp
    then show ?thesis by auto
  next
    case pos: True
    have len: "ctr + int (length (d # ds)) * n = ctr + n + int (length ds) * n"
      by (simp add: algebra_simps)
    show ?thesis
    proof (cases "ctr + n \<le> i")
      case True
      have e: "i - ctr = (i - (ctr + n)) + n" by simp
      have dv: "(i - ctr) div n = (i - (ctr + n)) div n + 1"
        using pos by (subst e) (simp only: div_add_self2)
      have md: "(i - ctr) mod n = (i - (ctr + n)) mod n"
        by (subst e) (simp only: mod_add_self2)
      have nn: "0 \<le> (i - (ctr + n)) div n"
        using True pos by (simp add: pos_imp_zdiv_nonneg_iff)
      have "nat ((i - ctr) div n) = Suc (nat ((i - (ctr + n)) div n))"
        using dv nn by simp
      then have "(d # ds) ! nat ((i - ctr) div n) = ds ! nat ((i - (ctr + n)) div n)"
        by simp
      moreover have "ctr \<le> i" using True n0 by simp
      ultimately show ?thesis using True md len by simp
    next
      case False
      have "i < ctr + int (length (d # ds)) * n" if "i < ctr + n"
      proof -
        have "0 \<le> int (length ds) * n" using n0 by simp
        then show ?thesis using that len by linarith
      qed
      moreover have "(i - ctr) div n = 0 \<and> (i - ctr) mod n = i - ctr" if "ctr \<le> i"
        using that False by simp
      ultimately show ?thesis using False by auto
    qed
  qed
  have "fold astep (d # ds) (val, ctr) =
     (\<lambda>i. if ctr + n \<le> i \<and> i < ctr + n + int (length ds) * n
        then f (ds ! nat ((i - (ctr + n)) div n)) (sc + (i - (ctr + n)) mod n)
        else (if ctr \<le> i \<and> i < ctr + n then f d (sc + (i - ctr)) else val i),
      ctr + n + int (length ds) * n)"
    by (simp add: step Cons.IH)
  also have "\<dots> = (\<lambda>i. if ctr \<le> i \<and> i < ctr + int (length (d # ds)) * n
        then f ((d # ds) ! nat ((i - ctr) div n)) (sc + (i - ctr) mod n) else val i,
      ctr + int (length (d # ds)) * n)"
    by (simp only: pointwise) (simp add: algebra_simps)
  finally show ?case .
qed

lemma index_of_array:
  assumes "0 \<le> i" "i < max 0 num_arrays * n" "0 \<le> (n::int)"
  shows "0 \<le> i div n \<and> i div n < num_arrays"
proof -
  have pos: "0 < n" using assms by (cases "n = 0") auto
  have na: "0 < num_arrays"
  proof (rule ccontr)
    assume "\<not> 0 < num_arrays"
    then have "max 0 num_arrays = 0" by simp
    with assms show False by simp
  qed
  have nn: "0 \<le> i div n" using assms pos by (simp add: pos_imp_zdiv_nonneg_iff)
  have lt: "i < num_arrays * n" using assms na by (simp add: max_def)
  have "i div n < num_arrays"
  proof (rule ccontr)
    assume "\<not> i div n < num_arrays"
    then have "num_arrays * n \<le> (i div n) * n"
      using pos by (intro mult_right_mono) auto
    moreover have "(i div n) * n + i mod n = i" by simp
    moreover have "0 \<le> i mod n" using pos by simp
    ultimately show False using lt by linarith
  qed
  with nn show ?thesis by simp
qed

lemma fold_arrays_upto:
  assumes step: "\<And>d val ctr. astep d (val, ctr) =
      (\<lambda>i. if ctr \<le> i \<and> i < ctr + n then f d (sc + (i - ctr)) else val i, ctr + n)"
    and n0: "0 \<le> n"
  shows "fst (fold astep [0..num_arrays - 1] (val, 0)) =
     (\<lambda>i. if 0 \<le> i \<and> i < max 0 num_arrays * n then f (i div n) (sc + i mod n) else val i)"
proof (rule ext)
  fix i
  have len: "int (length [0..num_arrays - 1]) = max 0 num_arrays"
    by simp
  have nth: "[0..num_arrays - 1] ! nat (i div n) = i div n"
    if "0 \<le> i" "i < max 0 num_arrays * n"
  proof -
    have "0 \<le> i div n \<and> i div n < num_arrays"
      using that n0 by (rule index_of_array)
    then have "0 + int (nat (i div n)) \<le> num_arrays - 1" "0 \<le> i div n" by simp_all
    then have "[0..num_arrays - 1] ! nat (i div n) = 0 + int (nat (i div n))"
      by (intro nth_upto)
    then show ?thesis using \<open>0 \<le> i div n\<close> by simp
  qed
  show "fst (fold astep [0..num_arrays - 1] (val, 0)) i =
        (if 0 \<le> i \<and> i < max 0 num_arrays * n then f (i div n) (sc + i mod n) else val i)"
    unfolding fold_arrays [of astep n f sc, OF step n0] len using nth by simp
qed

lemma kernel_closed_form:
  "linear_interpolate_to_particle D p plo dxi data_arr val is_nodal start_comp ncomp num_arrays =
     (\<lambda>i. if 0 \<le> i \<and> i < max 0 num_arrays * n_written start_comp ncomp
           then interp_at D p plo dxi
                  (data_arr (i div n_written start_comp ncomp))
                  (is_nodal (i div n_written start_comp ncomp))
                  (start_comp + i mod n_written start_comp ncomp)
           else val i)"
  unfolding linear_interpolate_to_particle_def
  by (rule fold_arrays_upto
      [where f = "\<lambda>d c. interp_at D p plo dxi (data_arr d) (is_nodal d) c"])
    (simp_all add: array_step_eq n_written_def)

text \<open>From component 0 on, the count of components and the end of the loop coincide.\<close>

lemma kernel_from_component_zero:
  assumes "0 \<le> ncomp" "0 \<le> num_arrays"
  shows "linear_interpolate_to_particle D p plo dxi data_arr val is_nodal 0 ncomp num_arrays =
     (\<lambda>i. if 0 \<le> i \<and> i < num_arrays * ncomp
           then interp_at D p plo dxi (data_arr (i div ncomp)) (is_nodal (i div ncomp))
                  (i mod ncomp)
           else val i)"
proof -
  have "n_written 0 ncomp = ncomp" "max 0 num_arrays = num_arrays"
    using assms by (simp_all add: n_written_def)
  then show ?thesis
    unfolding kernel_closed_form by (simp cong: if_cong)
qed

lemma tensor_sum_linear:
  "tensor_sum D (\<lambda>i j k n. a * A i j k n + b * B i j k n) lo s cmp =
     a * tensor_sum D A lo s cmp + b * tensor_sum D B lo s cmp"
  by (cases D) (simp_all add: algebra_simps)

lemma int_frac_bounds:
  "0 \<le> int_frac p plo dxi nodal ax \<and> int_frac p plo dxi nodal ax < 1"
  unfolding int_frac_def lo_index_def by linarith

text \<open>A negative fractional index: the floor is the next integer below.\<close>

lemma floor_of_negative_index:
  "lo_index \<lparr>pos = (\<lambda>ax. 0), idata = (\<lambda>n. 0)\<rparr> (\<lambda>ax. 0) (\<lambda>ax. 1) TheZeroVector 0 = - 1 \<and>
   int_frac \<lparr>pos = (\<lambda>ax. 0), idata = (\<lambda>n. 0)\<rparr> (\<lambda>ax. 0) (\<lambda>ax. 1) TheZeroVector 0 = 0.5"
  by (simp add: lo_index_def int_frac_def l_frac_def TheZeroVector_def lnot_def)

lemma sum_corner_weights:
  "sum_list (corner_weights D (s_weights p plo dxi nodal)) = 1"
  by (cases D) (simp_all add: s_weights_def algebra_simps)

lemma tensor_sum_unit:
  "tensor_sum D (\<lambda>i j k n. 1) lo s cmp = sum_list (corner_weights D s)"
  by (cases D) (simp_all add: algebra_simps)

lemma mac_is_nodal_eq:
  "0 \<le> d \<Longrightarrow> d < AMREX_SPACEDIM D \<Longrightarrow> mac_is_nodal D d = spec_face_centered d"
  by (cases D) (auto simp: mac_is_nodal_def spec_face_centered_def TheZeroVector_def upto.simps fun_eq_iff)

lemma kernel_cong_nodal:
  assumes "\<And>d. 0 \<le> d \<Longrightarrow> d < num_arrays \<Longrightarrow> is_nodal d = is_nodal' d"
  shows "linear_interpolate_to_particle D p plo dxi data_arr val is_nodal start_comp ncomp num_arrays =
         linear_interpolate_to_particle D p plo dxi data_arr val is_nodal' start_comp ncomp num_arrays"
proof -
  define n where "n = n_written start_comp ncomp"
  have n0: "0 \<le> n" by (simp add: n_def n_written_def)
  have eq: "is_nodal (i div n) = is_nodal' (i div n)"
    if "0 \<le> i" "i < max 0 num_arrays * n" for i
  proof -
    have pos: "0 < n" using that n0 by (cases "n = 0") auto
    have na: "0 < num_arrays"
    proof (rule ccontr)
      assume "\<not> 0 < num_arrays"
      then have "max 0 num_arrays = 0" by simp
      with that show False by simp
    qed
    have nn: "0 \<le> i div n" using that pos by (simp add: pos_imp_zdiv_nonneg_iff)
    have lt: "i < num_arrays * n" using that na by (simp add: max_def)
    have "i div n < num_arrays"
    proof (rule ccontr)
      assume "\<not> i div n < num_arrays"
      then have "num_arrays * n \<le> (i div n) * n"
        using pos by (intro mult_right_mono) auto
      moreover have "(i div n) * n + i mod n = i" by simp
      moreover have "0 \<le> i mod n" using pos by simp
      ultimately show False using lt by linarith
    qed
    with nn show ?thesis by (rule assms)
  qed
  show ?thesis
    unfolding kernel_closed_form
  proof (rule ext)
    fix i
    show "(if 0 \<le> i \<and> i < max 0 num_arrays * n_written start_comp ncomp
           then interp_at D p plo dxi (data_arr (i div n_written start_comp ncomp))
                  (is_nodal (i div n_written start_comp ncomp))
                  (start_comp + i mod n_written start_comp ncomp)
           else val i) =
          (if 0 \<le> i \<and> i < max 0 num_arrays * n_written start_comp ncomp
           then interp_at D p plo dxi (data_arr (i div n_written start_comp ncomp))
                  (is_nodal' (i div n_written start_comp ncomp))
                  (start_comp + i mod n_written start_comp ncomp)
           else val i)"
    proof (cases "0 \<le> i \<and> i < max 0 num_arrays * n_written start_comp ncomp")
      case True
      then have "is_nodal (i div n_written start_comp ncomp) =
                 is_nodal' (i div n_written start_comp ncomp)"
        using eq [of i] unfolding n_def by blast
      then show ?thesis by (simp only:)
    next
      case False
      then show ?thesis by (simp only: if_False)
    qed
  qed
qed

section \<open>The terrain-fitted kernel in closed form\<close>





















section \<open>Rounding to binary64\<close>

lemma ulp64_eval:
  assumes "2 powr real_of_int e \<le> \<bar>x\<bar>" "\<bar>x\<bar> < 2 powr (real_of_int e + 1)"
  shows "ulp64 x = 2 powr (real_of_int (max e (- 1022)) - 52)"
proof -
  have "0 < \<bar>x\<bar>" using assms(1) by (smt (verit) powr_gt_zero)
  then have "\<lfloor>log 2 \<bar>x\<bar>\<rfloor> = e"
    using assms by (simp add: floor_log_eq_powr_iff)
  then show ?thesis by (simp add: ulp64_def)
qed

lemma fl64_eval:
  assumes "2 powr real_of_int e \<le> \<bar>x\<bar>" "\<bar>x\<bar> < 2 powr (real_of_int e + 1)"
    and "u = 2 powr (real_of_int (max e (- 1022)) - 52)"
    and "real_of_int (rne (x / u)) * u = r" "\<bar>r\<bar> < 2 ^ 1024"
  shows "fl64 x = Some r"
proof -
  have "ulp64 x = u" using assms(1-3) by (simp add: ulp64_eval)
  moreover have "x \<noteq> 0" using assms(1) by (smt (verit) powr_gt_zero)
  ultimately show ?thesis using assms(4,5) by (simp add: fl64_def Let_def)
qed

lemma rne_eval:
  assumes "real_of_int f \<le> x" "x < real_of_int f + 1"
  shows "rne x = (if x - real_of_int f < 1 / 2 then f else if 1 / 2 < x - real_of_int f then f + 1
                  else if even f then f else f + 1)"
proof -
  have "\<lfloor>x\<rfloor> = f" using assms by linarith
  then show ?thesis by (simp add: rne_def Let_def)
qed

lemma fl64_below_one: "fl64 (1 - 1 / 2 ^ 54) = Some 1"
proof (rule fl64_eval [where e = "- 1" and u = "1 / 2 ^ 53"])
  show "real_of_int (rne ((1 - 1 / 2 ^ 54) / (1 / 2 ^ 53))) * (1 / 2 ^ 53) = 1"
    by (subst rne_eval [where f = "2 ^ 53 - 1"]) simp_all
qed (simp_all add: powr_minus)

lemma fl64_tiny: "fl64 (- (1 / 2 ^ 54)) = Some (- (1 / 2 ^ 54))"
proof (rule fl64_eval [where e = "- 54" and u = "1 / 2 ^ 106"])
  show "real_of_int (rne (- (1 / 2 ^ 54) / (1 / 2 ^ 106))) * (1 / 2 ^ 106) = - (1 / 2 ^ 54)"
    by (subst rne_eval [where f = "- (2 ^ 52)"]) simp_all
qed (simp_all add: powr_minus)

lemma fl64_half_pred: "fl64 (1 / 2 - 1 / 2 ^ 54) = Some (1 / 2 - 1 / 2 ^ 54)"
proof (rule fl64_eval [where e = "- 2" and u = "1 / 2 ^ 54"])
  show "real_of_int (rne ((1 / 2 - 1 / 2 ^ 54) / (1 / 2 ^ 54))) * (1 / 2 ^ 54) = 1 / 2 - 1 / 2 ^ 54"
    by (subst rne_eval [where f = "2 ^ 53 - 1"]) simp_all
qed (simp_all add: powr_minus)

lemma rne_nonneg: "0 \<le> z \<Longrightarrow> 0 \<le> rne z"
  unfolding rne_def Let_def
  by (smt (verit) floor_mono floor_zero)

lemma rne_le: "z \<le> real_of_int N \<Longrightarrow> rne z \<le> N"
proof -
  assume z: "z \<le> real_of_int N"
  have f: "\<lfloor>z\<rfloor> \<le> N" using z by (simp add: floor_le_iff)
  show ?thesis
  proof (cases "z - real_of_int \<lfloor>z\<rfloor> < 1 / 2")
    case True
    then show ?thesis using f by (simp add: rne_def Let_def)
  next
    case False
    then have "real_of_int \<lfloor>z\<rfloor> < z" by linarith
    then have "real_of_int \<lfloor>z\<rfloor> < real_of_int N" using z by linarith
    then have "\<lfloor>z\<rfloor> + 1 \<le> N" by linarith
    then show ?thesis using f by (simp add: rne_def Let_def)
  qed
qed

lemma fl64_unit_interval:
  assumes "0 \<le> y" "y < 1"
  shows "\<exists>r. fl64 y = Some r \<and> 0 \<le> r \<and> r \<le> 1"
proof (cases "y = 0")
  case True
  then show ?thesis by (simp add: fl64_def)
next
  case False
  with assms have pos: "0 < y" by simp
  define m where "m = max \<lfloor>log 2 \<bar>y\<bar>\<rfloor> (- 1022)"
  define N :: int where "N = 2 ^ nat (52 - m)"
  have "log 2 y < 0" using pos assms(2) by simp
  then have "\<lfloor>log 2 \<bar>y\<bar>\<rfloor> \<le> - 1" using pos by (simp add: floor_le_iff)
  then have m: "m \<le> - 1" by (simp add: m_def)
  have u: "ulp64 y = 2 powr (real_of_int m - 52)" by (simp add: ulp64_def m_def)
  have upos: "0 < ulp64 y" by (simp add: u)
  have "2 powr (52 - real_of_int m) = 2 powr real (nat (52 - m))"
    using m by simp
  also have "\<dots> = 2 ^ nat (52 - m)" by (rule powr_realpow) simp
  finally have inv: "2 powr (52 - real_of_int m) = real_of_int N" by (simp add: N_def)
  have "ulp64 y * real_of_int N = 2 powr (real_of_int m - 52) * 2 powr (52 - real_of_int m)"
    by (simp add: u inv)
  also have "\<dots> = 1" by (simp flip: powr_add)
  finally have uN: "ulp64 y * real_of_int N = 1" .
  have Npos: "0 < N" by (simp add: N_def)
  have "y / ulp64 y = y * real_of_int N"
    using uN upos by (simp add: field_simps)
  then have z: "0 \<le> y / ulp64 y" "y / ulp64 y \<le> real_of_int N"
    using pos assms(2) Npos by (simp_all add: mult_le_cancel_right1)
  define k where "k = rne (y / ulp64 y)"
  have k: "0 \<le> k" "k \<le> N" using z by (simp_all add: k_def rne_nonneg rne_le)
  define r where "r = real_of_int k * ulp64 y"
  have r0: "0 \<le> r" using k upos by (simp add: r_def)
  have "r \<le> real_of_int N * ulp64 y"
    unfolding r_def using k upos by (intro mult_right_mono) simp_all
  then have r1: "r \<le> 1" using uN by (simp add: mult.commute)
  have "\<bar>r\<bar> < 2 ^ 1024"
  proof -
    have "(1::real) < 2 ^ 1024" by simp
    with r0 r1 show ?thesis by linarith
  qed
  then have "fl64 y = Some r"
    using False by (simp add: fl64_def Let_def r_def k_def)
  with r0 r1 show ?thesis by blast
qed

lemma rne_of_int: "rne (real_of_int k) = k"
  by (simp add: rne_def Let_def)

lemma fl64_exact:
  assumes "2 powr real_of_int e \<le> \<bar>x\<bar>" "\<bar>x\<bar> < 2 powr (real_of_int e + 1)"
    and "x = real_of_int k * 2 powr (real_of_int (max e (- 1022)) - 52)"
    and "\<bar>x\<bar> < 2 ^ 1024"
  shows "fl64 x = Some x"
proof (rule fl64_eval [OF assms(1,2) refl _ assms(4)])
  have "x / 2 powr (real_of_int (max e (- 1022)) - 52) = real_of_int k"
    by (subst assms(3)) simp
  then show "real_of_int (rne (x / 2 powr (real_of_int (max e (- 1022)) - 52)))
               * 2 powr (real_of_int (max e (- 1022)) - 52) = x"
    using assms(3) by (simp only: rne_of_int)
qed

lemma fl64_one: "fl64 1 = Some 1"
  by (rule fl64_exact [where e = 0 and k = "2 ^ 52"]) (simp_all add: powr_minus)

lemma fl64_half: "fl64 (1 / 2) = Some (1 / 2)"
  by (rule fl64_exact [where e = "- 1" and k = "2 ^ 52"]) (simp_all add: powr_minus)

lemma fl64_3e9_half: "fl64 (6000000001 / 2) = Some (6000000001 / 2)"
  by (rule fl64_exact [where e = 31 and k = "6000000001 * 2 ^ 20"]) (simp_all add: powr_minus)

lemma fl64_3e9: "fl64 3000000000 = Some 3000000000"
  by (rule fl64_exact [where e = 31 and k = "3000000000 * 2 ^ 21"]) (simp_all add: powr_minus)

lemma static_cast_int_of_int:
  "static_cast_int (real_of_int k) = (if - (2 ^ 31) \<le> k \<and> k \<le> 2 ^ 31 - 1 then Some k else None)"
  by (simp add: static_cast_int_def)

lemma axis64_Some:
  assumes "fl64 (pos p ax - plo ax) = Some t1" "fl64 (t1 * dxi ax) = Some t2"
    and "fl64 (t2 - real_of_int (lnot (nodal ax)) * 0.5) = Some lx"
    and "static_cast_int (real_of_int \<lfloor>lx\<rfloor>) = Some i0"
    and "fl64 (lx - real_of_int i0) = Some xint"
  shows "axis64 p plo dxi nodal ax = Some (lx, i0, xint)"
  using assms by (simp add: axis64_def)

lemma axis64_no_cast:
  assumes "fl64 (pos p ax - plo ax) = Some t1" "fl64 (t1 * dxi ax) = Some t2"
    and "fl64 (t2 - real_of_int (lnot (nodal ax)) * 0.5) = Some lx"
    and "static_cast_int (real_of_int \<lfloor>lx\<rfloor>) = None"
  shows "axis64 p plo dxi nodal ax = None"
  using assms by (simp add: axis64_def)

lemma axis64_bounds:
  assumes "axis64 p plo dxi nodal ax = Some (lx, i0, xint)"
  shows "i0 = \<lfloor>lx\<rfloor> \<and> - (2 ^ 31) \<le> i0 \<and> i0 \<le> 2 ^ 31 - 1 \<and>
         real_of_int i0 \<le> lx \<and> lx < real_of_int i0 + 1 \<and> 0 \<le> xint \<and> xint \<le> 1"
proof -
  from assms have c: "static_cast_int (real_of_int \<lfloor>lx\<rfloor>) = Some i0"
    and x: "fl64 (lx - real_of_int i0) = Some xint"
    by (auto simp: axis64_def split: option.splits)
  from c have i0: "i0 = \<lfloor>lx\<rfloor>" "- (2 ^ 31) \<le> i0" "i0 \<le> 2 ^ 31 - 1"
    by (auto simp: static_cast_int_of_int split: if_splits)
  have fr: "0 \<le> lx - real_of_int i0" "lx - real_of_int i0 < 1"
    unfolding i0(1) by linarith+
  then obtain r where "fl64 (lx - real_of_int i0) = Some r" "0 \<le> r" "r \<le> 1"
    using fl64_unit_interval by blast
  with x have "0 \<le> xint" "xint \<le> 1" by simp_all
  with i0 fr show ?thesis by simp
qed

lemma axis64_exact:
  assumes "fl64 (pos p ax - plo ax) = Some (pos p ax - plo ax)"
    and "fl64 ((pos p ax - plo ax) * dxi ax) = Some ((pos p ax - plo ax) * dxi ax)"
    and "fl64 (l_frac p plo dxi nodal ax) = Some (l_frac p plo dxi nodal ax)"
    and "fl64 (int_frac p plo dxi nodal ax) = Some (int_frac p plo dxi nodal ax)"
    and "- (2 ^ 31) \<le> lo_index p plo dxi nodal ax" "lo_index p plo dxi nodal ax \<le> 2 ^ 31 - 1"
  shows "axis64 p plo dxi nodal ax =
           Some (l_frac p plo dxi nodal ax, lo_index p plo dxi nodal ax, int_frac p plo dxi nodal ax)"
proof (rule axis64_Some [where ?t1.0 = "pos p ax - plo ax" and ?t2.0 = "(pos p ax - plo ax) * dxi ax"])
  show "fl64 (pos p ax - plo ax) = Some (pos p ax - plo ax)" by (rule assms(1))
  show "fl64 ((pos p ax - plo ax) * dxi ax) = Some ((pos p ax - plo ax) * dxi ax)"
    by (rule assms(2))
  show "fl64 ((pos p ax - plo ax) * dxi ax - real_of_int (lnot (nodal ax)) * 0.5) =
          Some (l_frac p plo dxi nodal ax)"
    using assms(3) by (simp add: l_frac_def)
  show "static_cast_int (real_of_int \<lfloor>l_frac p plo dxi nodal ax\<rfloor>) =
          Some (lo_index p plo dxi nodal ax)"
    using assms(5,6) by (simp only: static_cast_int_of_int lo_index_def) simp
  show "fl64 (l_frac p plo dxi nodal ax - real_of_int (lo_index p plo dxi nodal ax)) =
          Some (int_frac p plo dxi nodal ax)"
    using assms(4) by (simp add: int_frac_def)
qed

section \<open>Integer powers\<close>

lemma power_fold_mult:
  assumes assoc: "\<And>a b c. op_mul T (op_mul T a b) c = op_mul T a (op_mul T b c)"
  shows "op_mul T (power_fold T (Suc m) x) (power_fold T (Suc n) x) = power_fold T (Suc m + Suc n) x"
proof (induction n)
  case 0
  then show ?case by simp
next
  case (Suc n)
  have "op_mul T (power_fold T (Suc m) x) (power_fold T (Suc (Suc n)) x) =
        op_mul T (power_fold T (Suc m) x) (op_mul T (power_fold T (Suc n) x) x)"
    by simp
  also have "\<dots> = op_mul T (op_mul T (power_fold T (Suc m) x) (power_fold T (Suc n) x)) x"
    by (simp only: assoc)
  also have "\<dots> = op_mul T (power_fold T (Suc m + Suc n) x) x"
    by (simp only: Suc.IH)
  also have "\<dots> = power_fold T (Suc m + Suc (Suc n)) x"
    by simp
  finally show ?case .
qed

lemma amrex_powi_fold:
  assumes assoc: "\<And>a b c. op_mul T (op_mul T a b) c = op_mul T a (op_mul T b c)"
  shows "0 \<le> Power \<Longrightarrow> amrex_powi T Power x = power_fold T (nat Power) x"
proof (induction "nat Power" arbitrary: Power rule: less_induct)
  case less
  show ?case
  proof (cases "Power = 0 \<or> Power = 1 \<or> Power = 2")
    case True
    then show ?thesis
      by (auto simp: amrex_powi.simps [of T Power x] eval_nat_numeral)
  next
    case small: False
    from small less.prems have gt: "2 < Power" by linarith
    show ?thesis
    proof (cases "Power mod 2 = 0")
      case True
      define m where "m = nat (Power div 2) - 1"
      have half: "nat (Power div 2) = Suc m" using gt by (simp add: m_def)
      have "nat (Power div 2) < nat Power" using gt by simp
      then have inner: "amrex_powi T (Power div 2) x = power_fold T (Suc m) x"
        using less.hyps [of "Power div 2"] gt half by simp
      have sq: "amrex_powi T 2 y = op_mul T y y" for y
        by (simp add: amrex_powi.simps [of T 2 y])
      have "Power = 2 * (Power div 2)" using True by presburger
      then have "Suc m + Suc m = nat Power" using half gt by linarith
      then have "op_mul T (power_fold T (Suc m) x) (power_fold T (Suc m) x) = power_fold T (nat Power) x"
        using power_fold_mult [OF assoc, of m x m] by simp
      then show ?thesis
        using small True gt inner sq by (simp add: amrex_powi.simps [of T Power x])
    next
      case False
      define k where "k = nat (Power - 1) - 1"
      have pred: "nat (Power - 1) = Suc k" using gt by (simp add: k_def)
      have "nat (Power - 1) < nat Power" using gt by simp
      then have inner: "amrex_powi T (Power - 1) x = power_fold T (Suc k) x"
        using less.hyps [of "Power - 1"] gt pred by simp
      have "Suc 0 + Suc k = nat Power" using pred gt by linarith
      then have "op_mul T x (power_fold T (Suc k) x) = power_fold T (nat Power) x"
        using power_fold_mult [OF assoc, of 0 x k] by simp
      then show ?thesis
        using small False gt inner by (simp add: amrex_powi.simps [of T Power x])
    qed
  qed
qed

lemma power_fold_exact: "power_fold exact_ops n (x::'a::{monoid_mult,divide}) = x ^ n"
proof (induction n)
  case 0
  then show ?case by (simp add: exact_ops_def)
next
  case (Suc n)
  have "op_mul exact_ops a b = a * b" for a b :: 'a
    by (simp add: exact_ops_def)
  with Suc show ?case
    by (cases n) (simp_all add: mult.assoc power_commutes)
qed

lemma amrex_powi_exact:
  "0 \<le> Power \<Longrightarrow> amrex_powi exact_ops Power (x::'a::{monoid_mult,divide}) = x ^ nat Power"
  by (simp add: amrex_powi_fold exact_ops_def mult.assoc flip: power_fold_exact)

lemma fl64_binade0:
  assumes "1 \<le> v" "v < 2"
    and "real_of_int f \<le> v * 2 ^ 52" "v * 2 ^ 52 < real_of_int f + 1"
    and "k = (if v * 2 ^ 52 - real_of_int f < 1 / 2 then f
              else if 1 / 2 < v * 2 ^ 52 - real_of_int f then f + 1
              else if even f then f else f + 1)"
    and "k < 2 ^ 1076"
  shows "fl64 v = Some (real_of_int k / 2 ^ 52)"
proof (rule fl64_eval [where e = 0 and u = "1 / 2 ^ 52"])
  have "rne (v / (1 / 2 ^ 52)) = k"
    using assms(3,4) by (subst rne_eval [where f = f]) (simp_all add: assms(5))
  then show "real_of_int (rne (v / (1 / 2 ^ 52))) * (1 / 2 ^ 52) = real_of_int k / 2 ^ 52"
    by simp
  have "0 < v * 2 ^ 52" using assms(1) by simp
  then have "0 \<le> f" using assms(4) by linarith
  then have "0 \<le> k" by (simp add: assms(5))
  then have "\<bar>real_of_int k / 2 ^ 52\<bar> = real_of_int k / 2 ^ 52" by simp
  also have "\<dots> < 2 ^ 1076 / 2 ^ 52"
    using assms(6) by (intro divide_strict_right_mono) (simp_all add: of_int_less_iff [of k "2 ^ 1076", simplified])
  also have "\<dots> = (2 ^ 1024 :: real)" by simp
  finally show "\<bar>real_of_int k / 2 ^ 52\<bar> < 2 ^ 1024" .
qed (use assms(1,2) in \<open>simp_all add: powr_minus\<close>)

lemma b64_sq: "fl64 (2476979795053773 / 2 ^ 51 * (2476979795053773 / 2 ^ 51)) = Some (5449355549118301 / 2 ^ 52)"
  using fl64_binade0 [where v = "2476979795053773 / 2 ^ 51 * (2476979795053773 / 2 ^ 51)"
      and f = 5449355549118301 and k = 5449355549118301]
  by simp

lemma b64_sq_sq: "fl64 (5449355549118301 / 2 ^ 52 * (5449355549118301 / 2 ^ 52)) = Some (6593720214433145 / 2 ^ 52)"
  using fl64_binade0 [where v = "5449355549118301 / 2 ^ 52 * (5449355549118301 / 2 ^ 52)"
      and f = 6593720214433145 and k = 6593720214433145]
  by simp

lemma b64_cube: "fl64 (5449355549118301 / 2 ^ 52 * (2476979795053773 / 2 ^ 51)) = Some (5994291104030132 / 2 ^ 52)"
  using fl64_binade0 [where v = "5449355549118301 / 2 ^ 52 * (2476979795053773 / 2 ^ 51)"
      and f = 5994291104030131 and k = 5994291104030132]
  by simp

lemma b64_fourth: "fl64 (5994291104030132 / 2 ^ 52 * (2476979795053773 / 2 ^ 51)) = Some (6593720214433146 / 2 ^ 52)"
  using fl64_binade0 [where v = "5994291104030132 / 2 ^ 52 * (2476979795053773 / 2 ^ 51)"
      and f = 6593720214433145 and k = 6593720214433146]
  by simp

lemma unat_power_word: "unat ((w::32 word) ^ n) = unat w ^ n mod 2 ^ 32"
proof (induction n)
  case 0
  then show ?case by simp
next
  case (Suc n)
  have "unat (w ^ Suc n) = unat w * unat (w ^ n) mod 2 ^ 32"
    by (simp add: unat_word_ariths)
  also have "\<dots> = unat w * (unat w ^ n mod 2 ^ 32) mod 2 ^ 32"
    by (simp only: Suc.IH)
  also have "\<dots> = unat w ^ Suc n mod 2 ^ 32"
    by (simp add: mod_mult_right_eq)
  finally show ?case .
qed

section \<open>Properties of the regular kernel\<close>

text \<open>
  C1 (as the code behaves). The component loop runs over \<open>start_comp \<le> comp < ncomp\<close>, so
  each array contributes \<open>max 0 (ncomp - start_comp)\<close> entries: entry \<open>i\<close> below
  \<open>num_arrays\<close> times that count receives component \<open>start_comp + i mod count\<close> of array
  \<open>i div count\<close>, every other entry keeps its old content. With \<open>start_comp = 1\<close>,
  \<open>ncomp = 2\<close> and one array, only \<open>val[0]\<close> is written (component 1) and \<open>val[1]\<close>
  is left as it was; with \<open>start_comp = 1\<close>, \<open>ncomp = 1\<close> nothing is written at all, also
  by the terrain-fitted kernel, whose component loop has the same bounds.
\<close>

theorem start_comp_loop_bound:
  "linear_interpolate_to_particle D p plo dxi data_arr val is_nodal start_comp ncomp num_arrays =
     (\<lambda>i. if 0 \<le> i \<and> i < max 0 num_arrays * n_written start_comp ncomp
           then interp_at D p plo dxi
                  (data_arr (i div n_written start_comp ncomp))
                  (is_nodal (i div n_written start_comp ncomp))
                  (start_comp + i mod n_written start_comp ncomp)
           else val i) \<and>
   n_written start_comp ncomp = max 0 (ncomp - start_comp) \<and>
   linear_interpolate_to_particle D p plo dxi data_arr val is_nodal 1 2 1 =
     val(0 := interp_at D p plo dxi (data_arr 0) (is_nodal 0) 1) \<and>
   linear_interpolate_to_particle D p plo dxi data_arr val is_nodal 1 2 1 1 = val 1 \<and>
   linear_interpolate_to_particle D p plo dxi data_arr val is_nodal 1 1 1 = val \<and>
   linear_interpolate_to_particle_z Dim3 p plo dxi data_arr h zval is_nodal 1 1 1 = Inr zval \<and>
   linear_interpolate_to_particle_z Dim2 p plo dxi data_arr h zval is_nodal 1 1 1 = Inr zval"
proof -
  have "linear_interpolate_to_particle D p plo dxi data_arr val is_nodal 1 2 1 =
     val(0 := interp_at D p plo dxi (data_arr 0) (is_nodal 0) 1)"
    by (auto simp: kernel_closed_form n_written_def fun_eq_iff)
  moreover have "linear_interpolate_to_particle D p plo dxi data_arr val is_nodal 1 1 1 = val"
    by (auto simp: kernel_closed_form n_written_def fun_eq_iff)
  moreover have "linear_interpolate_to_particle_z Dim3 p plo dxi data_arr h zval is_nodal 1 1 1 =
     Inr zval"
    by (simp add: array_step_z3_def)
  moreover have "linear_interpolate_to_particle_z Dim2 p plo dxi data_arr h zval is_nodal 1 1 1 =
     Inr zval"
    by (simp add: array_step_z2_def)
  ultimately show ?thesis
    using kernel_closed_form [of D p plo dxi data_arr val is_nodal start_comp ncomp num_arrays]
    by (simp add: n_written_def)
qed

text \<open>
  C2 (counterexample). A cell-centred particle at \<open>0.5 - 2^(-54)\<close> with \<open>plo = 0\<close>,
  \<open>dxi = 1\<close>: the code has \<open>lx = -2^(-54)\<close> and \<open>i0 = -1\<close>, and the remainder
  \<open>lx - i0 = 1 - 2^(-54)\<close> rounds to 1, so \<open>xint\<close> is 1 and not below 1. At the position
  3000000000.5 the floor of \<open>lx\<close> is 3000000000, which is no \<^verbatim>\<open>int\<close>: the conversion has
  no defined result.
\<close>

theorem index_weight_counterexample:
  "axis64 \<lparr>pos = (\<lambda>ax. 1 / 2 - 1 / 2 ^ 54), idata = (\<lambda>n. 0)\<rparr> (\<lambda>ax. 0) (\<lambda>ax. 1) (\<lambda>ax. 0) 0
     = Some (- (1 / 2 ^ 54), - 1, 1) \<and>
   \<not> (1::real) < 1 \<and>
   axis64 \<lparr>pos = (\<lambda>ax. 6000000001 / 2), idata = (\<lambda>n. 0)\<rparr> (\<lambda>ax. 0) (\<lambda>ax. 1) (\<lambda>ax. 0) 0
     = None"
proof -
  have "axis64 \<lparr>pos = (\<lambda>ax. 1 / 2 - 1 / 2 ^ 54), idata = (\<lambda>n. 0)\<rparr> (\<lambda>ax. 0) (\<lambda>ax. 1) (\<lambda>ax. 0) 0
     = Some (- (1 / 2 ^ 54), - 1, 1)"
  proof (rule axis64_Some [where ?t1.0 = "1 / 2 - 1 / 2 ^ 54" and ?t2.0 = "1 / 2 - 1 / 2 ^ 54"])
    show "fl64 (pos \<lparr>pos = (\<lambda>ax. 1 / 2 - 1 / 2 ^ 54), idata = (\<lambda>n. 0)\<rparr> 0 - 0)
            = Some (1 / 2 - 1 / 2 ^ 54)"
      using fl64_half_pred by simp
    show "fl64 ((1 / 2 - 1 / 2 ^ 54) * 1) = Some (1 / 2 - 1 / 2 ^ 54)"
      using fl64_half_pred by simp
    show "fl64 (1 / 2 - 1 / 2 ^ 54 - real_of_int (lnot 0) * 0.5) = Some (- (1 / 2 ^ 54))"
      using fl64_tiny by (simp add: lnot_def)
    have "\<lfloor>- (1 / 2 ^ 54 :: real)\<rfloor> = - 1" by (simp add: floor_eq_iff)
    then show "static_cast_int (real_of_int \<lfloor>- (1 / 2 ^ 54 :: real)\<rfloor>) = Some (- 1)"
      by (simp only: static_cast_int_of_int) simp
    show "fl64 (- (1 / 2 ^ 54) - real_of_int (- 1)) = Some 1"
      using fl64_below_one by simp
  qed
  moreover have "axis64 \<lparr>pos = (\<lambda>ax. 6000000001 / 2), idata = (\<lambda>n. 0)\<rparr> (\<lambda>ax. 0) (\<lambda>ax. 1) (\<lambda>ax. 0) 0
     = None"
  proof (rule axis64_no_cast [where ?t1.0 = "6000000001 / 2" and ?t2.0 = "6000000001 / 2"
        and lx = 3000000000])
    show "fl64 (pos \<lparr>pos = (\<lambda>ax. 6000000001 / 2), idata = (\<lambda>n. 0)\<rparr> 0 - 0)
            = Some (6000000001 / 2)"
      using fl64_3e9_half by simp
    show "fl64 (6000000001 / 2 * 1) = Some (6000000001 / 2)"
      using fl64_3e9_half by simp
    show "fl64 (6000000001 / 2 - real_of_int (lnot 0) * 0.5) = Some 3000000000"
      using fl64_3e9 by (simp add: lnot_def)
    have "\<lfloor>3000000000 :: real\<rfloor> = 3000000000" by simp
    then show "static_cast_int (real_of_int \<lfloor>3000000000 :: real\<rfloor>) = None"
      by (simp only: static_cast_int_of_int) simp
  qed
  ultimately show ?thesis by simp
qed

text \<open>
  C2 (amended). In exact arithmetic with an unbounded index, along every axis the
  fractional index is \<open>(pos - plo) * dxi\<close> minus 0.5 on a cell-centred axis and minus 0 on
  a nodal one; the lower index is its floor, the greatest integer not above it (so it
  rounds towards minus infinity, also for negative values); the weight is the remainder,
  which lies in \<open>[0, 1)\<close>; and the value the kernel writes is the corner sum at that index
  with the pairs \<open>{1 - weight, weight}\<close>. In binary64, whenever the code has an index at all,
  \<open>i0\<close> is the floor of the rounded \<open>lx\<close> and an \<^verbatim>\<open>int\<close>, and \<open>xint\<close> lies in \<open>[0, 1]\<close>;
  where the four operations round nothing and the floor is an \<^verbatim>\<open>int\<close>, the code has the
  exact values.
\<close>

theorem fractional_index_floor_weight:
  "l_frac p plo dxi nodal ax =
     (pos p ax - plo ax) * dxi ax - (if nodal ax = 0 then 0.5 else 0) \<and>
   lo_index p plo dxi nodal ax = \<lfloor>l_frac p plo dxi nodal ax\<rfloor> \<and>
   real_of_int (lo_index p plo dxi nodal ax) \<le> l_frac p plo dxi nodal ax \<and>
   l_frac p plo dxi nodal ax < real_of_int (lo_index p plo dxi nodal ax) + 1 \<and>
   int_frac p plo dxi nodal ax =
     l_frac p plo dxi nodal ax - real_of_int (lo_index p plo dxi nodal ax) \<and>
   0 \<le> int_frac p plo dxi nodal ax \<and> int_frac p plo dxi nodal ax < 1 \<and>
   s_weights p plo dxi nodal ax =
     [1 - int_frac p plo dxi nodal ax, int_frac p plo dxi nodal ax] \<and>
   linear_interpolate_to_particle D p plo dxi data_arr val is_nodal 0 1 1 0 =
     tensor_sum D (data_arr 0) (lo_index p plo dxi (is_nodal 0))
       (s_weights p plo dxi (is_nodal 0)) 0 \<and>
   (axis64 p plo dxi nodal ax = Some (lx, i0, xint) \<longrightarrow>
      i0 = \<lfloor>lx\<rfloor> \<and> - (2 ^ 31) \<le> i0 \<and> i0 \<le> 2 ^ 31 - 1 \<and>
      real_of_int i0 \<le> lx \<and> lx < real_of_int i0 + 1 \<and> 0 \<le> xint \<and> xint \<le> 1) \<and>
   (fl64 (pos p ax - plo ax) = Some (pos p ax - plo ax) \<and>
    fl64 ((pos p ax - plo ax) * dxi ax) = Some ((pos p ax - plo ax) * dxi ax) \<and>
    fl64 (l_frac p plo dxi nodal ax) = Some (l_frac p plo dxi nodal ax) \<and>
    fl64 (int_frac p plo dxi nodal ax) = Some (int_frac p plo dxi nodal ax) \<and>
    - (2 ^ 31) \<le> lo_index p plo dxi nodal ax \<and> lo_index p plo dxi nodal ax \<le> 2 ^ 31 - 1 \<longrightarrow>
      axis64 p plo dxi nodal ax =
        Some (l_frac p plo dxi nodal ax, lo_index p plo dxi nodal ax, int_frac p plo dxi nodal ax))"
proof -
  have "real_of_int (lo_index p plo dxi nodal ax) \<le> l_frac p plo dxi nodal ax"
    and "l_frac p plo dxi nodal ax < real_of_int (lo_index p plo dxi nodal ax) + 1"
    unfolding lo_index_def by linarith+
  moreover have "l_frac p plo dxi nodal ax =
     (pos p ax - plo ax) * dxi ax - (if nodal ax = 0 then 0.5 else 0)"
    by (simp add: l_frac_def lnot_def)
  moreover have "linear_interpolate_to_particle D p plo dxi data_arr val is_nodal 0 1 1 0 =
     tensor_sum D (data_arr 0) (lo_index p plo dxi (is_nodal 0))
       (s_weights p plo dxi (is_nodal 0)) 0"
    by (simp add: kernel_closed_form n_written_def interp_at_def)
  moreover have "axis64 p plo dxi nodal ax = Some (lx, i0, xint) \<longrightarrow>
      i0 = \<lfloor>lx\<rfloor> \<and> - (2 ^ 31) \<le> i0 \<and> i0 \<le> 2 ^ 31 - 1 \<and>
      real_of_int i0 \<le> lx \<and> lx < real_of_int i0 + 1 \<and> 0 \<le> xint \<and> xint \<le> 1"
    using axis64_bounds by blast
  moreover have "fl64 (pos p ax - plo ax) = Some (pos p ax - plo ax) \<and>
    fl64 ((pos p ax - plo ax) * dxi ax) = Some ((pos p ax - plo ax) * dxi ax) \<and>
    fl64 (l_frac p plo dxi nodal ax) = Some (l_frac p plo dxi nodal ax) \<and>
    fl64 (int_frac p plo dxi nodal ax) = Some (int_frac p plo dxi nodal ax) \<and>
    - (2 ^ 31) \<le> lo_index p plo dxi nodal ax \<and> lo_index p plo dxi nodal ax \<le> 2 ^ 31 - 1 \<longrightarrow>
      axis64 p plo dxi nodal ax =
        Some (l_frac p plo dxi nodal ax, lo_index p plo dxi nodal ax, int_frac p plo dxi nodal ax)"
    using axis64_exact by blast
  ultimately show ?thesis
    using int_frac_bounds [of p plo dxi nodal ax]
    by (simp only: lo_index_def int_frac_def s_weights_def simp_thms) simp
qed

theorem fractional_index_floor_weight_witness:
  "axis64 \<lparr>pos = (\<lambda>ax. 1), idata = (\<lambda>n. 0)\<rparr> (\<lambda>ax. 0) (\<lambda>ax. 1) (\<lambda>ax. 0) 0 = Some (1 / 2, 0, 1 / 2) \<and>
   (0::int) = \<lfloor>1 / 2 :: real\<rfloor> \<and> (0::real) \<le> 1 / 2 \<and> (1 / 2 :: real) \<le> 1"
proof -
  let ?p = "\<lparr>pos = (\<lambda>ax. 1), idata = (\<lambda>n. 0)\<rparr>"
  have l: "l_frac ?p (\<lambda>ax. 0) (\<lambda>ax. 1) (\<lambda>ax. 0) 0 = 1 / 2"
    by (simp add: l_frac_def lnot_def)
  have i: "lo_index ?p (\<lambda>ax. 0) (\<lambda>ax. 1) (\<lambda>ax. 0) 0 = 0"
    by (simp add: lo_index_def l)
  have x: "int_frac ?p (\<lambda>ax. 0) (\<lambda>ax. 1) (\<lambda>ax. 0) 0 = 1 / 2"
    by (simp add: int_frac_def l i)
  have a: "axis64 ?p (\<lambda>ax. 0) (\<lambda>ax. 1) (\<lambda>ax. 0) 0 = Some (1 / 2, 0, 1 / 2)"
    using fractional_index_floor_weight [of ?p "\<lambda>ax. 0" "\<lambda>ax. 1" "\<lambda>ax. 0" 0] fl64_one fl64_half
    by (simp add: l i x)
  show ?thesis
    using fractional_index_floor_weight [of ?p "\<lambda>ax. 0" "\<lambda>ax. 1" "\<lambda>ax. 0" 0 _ _ _ _ "1 / 2" 0 "1 / 2"] a
    by simp
qed

text \<open>
  C5. In two dimensions, for a cell-centred field with the values 10, 20, 30, 40 at the
  cells (0,0), (1,0), (0,1), (1,1), \<open>plo = (0,0)\<close>, \<open>dxi = (1,1)\<close> and a particle at
  (1.0, 1.0), the cell-centred kernel (called for at least one component) writes 25 to
  \<open>val[0]\<close>.
\<close>

theorem cell_centered_scenario:
  assumes "arr 0 0 0 0 = 10" "arr 1 0 0 0 = 20" "arr 0 1 0 0 = 30" "arr 1 1 0 0 = 40"
    and "plo 0 = 0" "plo 1 = 0" "dxi 0 = 1" "dxi 1 = 1"
    and "pos p 0 = 1" "pos p 1 = 1"
    and "1 \<le> M"
  shows "cic_interpolate_cc Dim2 p plo dxi arr val M 0 = 25 \<and>
         cic_interpolate Dim2 p plo dxi arr val M 0 = 25"
proof -
  have l: "l_frac p plo dxi TheZeroVector ax = 0.5" if "ax = 0 \<or> ax = 1" for ax
    using that assms by (auto simp: l_frac_def TheZeroVector_def lnot_def)
  have fl: "\<lfloor>0.5::real\<rfloor> = 0" by simp
  have lo: "lo_index p plo dxi TheZeroVector ax = 0" if "ax = 0 \<or> ax = 1" for ax
    using that by (simp only: lo_index_def l fl)
  have s: "s_weights p plo dxi TheZeroVector ax = [0.5, 0.5]" if "ax = 0 \<or> ax = 1" for ax
    using that by (simp add: s_weights_def int_frac_def l lo)
  have "interp_at Dim2 p plo dxi arr TheZeroVector 0 = 25"
    using assms by (simp add: interp_at_def lo s)
  moreover have "0 < max 0 1 * n_written 0 M"
    using assms by (simp add: n_written_def)
  moreover have "(0::int) div n_written 0 M = 0" "(0::int) mod n_written 0 M = 0"
    by simp_all
  ultimately show ?thesis
    by (simp add: cic_interpolate_def cic_interpolate_cc_def kernel_closed_form del: max.absorb1 max.absorb2 max.absorb3 max.absorb4)
qed

theorem cell_centered_scenario_witness:
  "cic_interpolate_cc Dim2 \<lparr>pos = (\<lambda>ax. 1), idata = (\<lambda>n. 0)\<rparr> (\<lambda>ax. 0) (\<lambda>ax. 1)
     (\<lambda>i j k n. 10 + 10 * real_of_int i + 20 * real_of_int j) (\<lambda>i. 0) 1 0 = 25"
  using cell_centered_scenario [of "\<lambda>i j k n. 10 + 10 * real_of_int i + 20 * real_of_int j"
      "\<lambda>ax. 0" "\<lambda>ax. 1" "\<lparr>pos = (\<lambda>ax. 1), idata = (\<lambda>n. 0)\<rparr>" 1 "\<lambda>i. 0"]
  by simp

text \<open>
  C6. For any particle position and staggering, the \<open>2^D\<close> corner weights of the kernel
  (the products of one entry of each per-axis pair \<open>{1 - xint, xint}\<close>) add up to 1; the
  kernel applied to the field that is 1 everywhere writes the sum of its weights.
\<close>

theorem corner_weights_sum_to_one:
  "sum_list (corner_weights D (s_weights p plo dxi nodal)) = 1 \<and>
   length (corner_weights D (s_weights p plo dxi nodal)) = 2 ^ nat (AMREX_SPACEDIM D) \<and>
   linear_interpolate_to_particle D p plo dxi (\<lambda>d i j k n. 1) val is_nodal 0 1 1 0 =
     sum_list (corner_weights D (s_weights p plo dxi (is_nodal 0)))"
proof -
  have "length (corner_weights D (s_weights p plo dxi nodal)) = 2 ^ nat (AMREX_SPACEDIM D)"
    by (cases D) simp_all
  moreover have "linear_interpolate_to_particle D p plo dxi (\<lambda>d i j k n. 1) val is_nodal 0 1 1 0 =
     sum_list (corner_weights D (s_weights p plo dxi (is_nodal 0)))"
    by (simp add: kernel_closed_form n_written_def interp_at_def tensor_sum_unit)
  ultimately show ?thesis
    by (simp add: sum_corner_weights)
qed

text \<open>
  C7. The kernel is linear in the field data: for fields \<open>A\<close>, \<open>B\<close> read with the same
  staggering and scalars \<open>a\<close>, \<open>b\<close>, every entry the kernel writes for the field
  \<open>a * A + b * B\<close> is \<open>a\<close> times the entry for \<open>A\<close> plus \<open>b\<close> times the entry for
  \<open>B\<close>, whatever the buffers held before; the entries it does not write are unchanged.
\<close>

theorem interpolation_linear_in_field:
  "linear_interpolate_to_particle D p plo dxi
       (\<lambda>d i j k n. a * A d i j k n + b * B d i j k n) v is_nodal start_comp ncomp num_arrays i =
     (if 0 \<le> i \<and> i < max 0 num_arrays * n_written start_comp ncomp
      then a * linear_interpolate_to_particle D p plo dxi A va is_nodal start_comp ncomp num_arrays i
         + b * linear_interpolate_to_particle D p plo dxi B vb is_nodal start_comp ncomp num_arrays i
      else v i)"
  by (simp add: kernel_closed_form interp_at_def tensor_sum_linear)

text \<open>
  C8. \<open>cic_interpolate_cc\<close> (and \<open>cic_interpolate\<close>) is the general kernel with one
  array, all axes cell-centred, \<open>start_comp = 0\<close> and \<open>ncomp = M\<close>;
  \<open>cic_interpolate_nd\<close> the same with all axes nodal; \<open>mac_interpolate\<close> is the general
  kernel with \<open>AMREX_SPACEDIM\<close> arrays of one component, array \<open>d\<close> nodal exactly in
  axis \<open>d\<close>.
\<close>

theorem specializations_refine_kernel:
  "cic_interpolate_cc D p plo dxi arr val M =
     linear_interpolate_to_particle D p plo dxi (\<lambda>d. arr) val spec_cell_centered 0 M 1 \<and>
   cic_interpolate D p plo dxi arr val M =
     linear_interpolate_to_particle D p plo dxi (\<lambda>d. arr) val spec_cell_centered 0 M 1 \<and>
   cic_interpolate_nd D p plo dxi arr val M =
     linear_interpolate_to_particle D p plo dxi (\<lambda>d. arr) val spec_node_centered 0 M 1 \<and>
   mac_interpolate D p plo dxi data_arr val =
     linear_interpolate_to_particle D p plo dxi data_arr val spec_face_centered 0 1
       (AMREX_SPACEDIM D)"
proof -
  have "mac_interpolate D p plo dxi data_arr val =
     linear_interpolate_to_particle D p plo dxi data_arr val spec_face_centered 0 1
       (AMREX_SPACEDIM D)"
    unfolding mac_interpolate_def Let_def
    by (rule kernel_cong_nodal) (rule mac_is_nodal_eq)
  moreover have "spec_cell_centered = (\<lambda>d. TheZeroVector)" "spec_node_centered = (\<lambda>d. TheUnitVector)"
    by (simp_all add: fun_eq_iff spec_cell_centered_def spec_node_centered_def
        TheZeroVector_def TheUnitVector_def)
  ultimately show ?thesis
    by (simp add: cic_interpolate_def cic_interpolate_cc_def cic_interpolate_nd_def)
qed

section \<open>Properties of the terrain-fitted kernel\<close>


text \<open>
  C4. In a 1D build \<open>linear_interpolate_to_particle_z\<close> and each of its mapped-z wrappers
  ends in \<open>amrex::Abort\<close> with the message about 1D; no value is returned and the output
  buffer is the one passed in.
\<close>

theorem terrain_1d_aborts:
  "linear_interpolate_to_particle_z Dim1 p plo dxi data_arr h val is_nodal start_comp ncomp num_arrays =
     Inl (Abort abort_1d val) \<and>
   cic_interpolate_mapped_z Dim1 p plo dxi arr h val M = Inl (Abort abort_1d val) \<and>
   cic_interpolate_cc_mapped_z Dim1 p plo dxi arr h val M = Inl (Abort abort_1d val) \<and>
   cic_interpolate_nd_mapped_z Dim1 p plo dxi arr h val M = Inl (Abort abort_1d val) \<and>
   mac_interpolate_mapped_z Dim1 p plo dxi data_arr h val = Inl (Abort abort_1d val) \<and>
   abort_1d = '' Terrain fitted grid interpolation is not supported in 1D'' @ [CHR 0x0A]"
  by (simp add: cic_interpolate_mapped_z_def cic_interpolate_cc_mapped_z_def
      cic_interpolate_nd_mapped_z_def mac_interpolate_mapped_z_def abort_1d_def)



section \<open>Properties of the integer power\<close>

text \<open>
  C10 (counterexample). At \<^verbatim>\<open>unsigned int\<close>, \<open>powi<32>(2)\<close> is 0 and not the integer
  \<open>2^32\<close>. At \<^verbatim>\<open>double\<close>, for the double nearest to 1.1, \<open>powi<4>\<close> squares the rounded
  square and differs in the last place from the product \<open>x * x * x * x\<close>.
\<close>

theorem powi_counterexample:
  "amrex_powi unsigned32 32 2 = 0 \<and>
   unat (amrex_powi unsigned32 32 2) \<noteq> 2 ^ 32 \<and>
   amrex_powi binary64 4 (Finite (2476979795053773 / 2 ^ 51)) = Finite (6593720214433145 / 2 ^ 52) \<and>
   power_fold binary64 4 (Finite (2476979795053773 / 2 ^ 51)) = Finite (6593720214433146 / 2 ^ 52) \<and>
   amrex_powi binary64 4 (Finite (2476979795053773 / 2 ^ 51))
     \<noteq> power_fold binary64 4 (Finite (2476979795053773 / 2 ^ 51))"
proof -
  have u: "amrex_powi unsigned32 32 2 = 0"
    unfolding unsigned32_def by (subst amrex_powi_exact) simp_all
  have "amrex_powi T 2 y = op_mul T y y" for T :: "double ops" and y
    by (simp add: amrex_powi.simps [of T 2 y])
  then have sq: "amrex_powi binary64 2 y = dmul y y" for y
    by (simp add: binary64_def)
  let ?x = "Finite (2476979795053773 / 2 ^ 51)"
  let ?s = "Finite (5449355549118301 / 2 ^ 52)"
  let ?t = "Finite (5994291104030132 / 2 ^ 52)"
  have m1: "dmul ?x ?x = ?s" using b64_sq by (simp add: round64_def)
  have m2: "dmul ?s ?s = Finite (6593720214433145 / 2 ^ 52)"
    using b64_sq_sq by (simp add: round64_def)
  have m3: "dmul ?s ?x = ?t" using b64_cube by (simp add: round64_def)
  have m4: "dmul ?t ?x = Finite (6593720214433146 / 2 ^ 52)"
    using b64_fourth by (simp add: round64_def)
  have "amrex_powi binary64 4 ?x = amrex_powi binary64 2 (amrex_powi binary64 2 ?x)"
    by (subst amrex_powi.simps) simp
  also have "\<dots> = dmul (dmul ?x ?x) (dmul ?x ?x)" by (simp only: sq)
  also have "\<dots> = Finite (6593720214433145 / 2 ^ 52)" by (simp only: m1 m2)
  finally have p: "amrex_powi binary64 4 ?x = Finite (6593720214433145 / 2 ^ 52)" .
  have "power_fold binary64 4 ?x = dmul (dmul (dmul ?x ?x) ?x) ?x"
    by (simp add: eval_nat_numeral binary64_def)
  also have "\<dots> = Finite (6593720214433146 / 2 ^ 52)" by (simp only: m1 m3 m4)
  finally have f: "power_fold binary64 4 ?x = Finite (6593720214433146 / 2 ^ 52)" .
  show ?thesis
    unfolding u p f by simp
qed

text \<open>
  C10 (amended). For every \<open>Power \<ge> 0\<close> and every \<open>x\<close> of a type whose multiplication
  is associative, \<open>powi<Power>(x)\<close> is the \<open>Power\<close>-fold product of \<open>x\<close> in that type
  (\<open>T(1)\<close> for \<open>Power = 0\<close>); in exact arithmetic this is the mathematical power, and at
  \<^verbatim>\<open>unsigned int\<close> it is that power modulo \<open>2^32\<close>. For \<open>Power < 0\<close>, at any type,
  \<open>powi<Power>(x)\<close> is \<open>T(1)\<close> divided by \<open>powi<-Power>(x)\<close> with the type's own division.
\<close>

theorem powi_is_integer_power:
  fixes y :: "'b::{monoid_mult,divide}"
  shows
  "((\<forall>a b c. op_mul T (op_mul T a b) c = op_mul T a (op_mul T b c)) \<and> 0 \<le> Power \<longrightarrow>
      amrex_powi T Power x = power_fold T (nat Power) x) \<and>
   (Power < 0 \<longrightarrow> amrex_powi T Power x = op_div T (op_one T) (amrex_powi T (- Power) x)) \<and>
   (0 \<le> Power \<longrightarrow> amrex_powi exact_ops Power y = y ^ nat Power) \<and>
   (0 \<le> Power \<longrightarrow> unat (amrex_powi unsigned32 Power w) = unat w ^ nat Power mod 2 ^ 32)"
proof (intro conjI impI)
  show "amrex_powi T Power x = power_fold T (nat Power) x"
    if "(\<forall>a b c. op_mul T (op_mul T a b) c = op_mul T a (op_mul T b c)) \<and> 0 \<le> Power"
    using that by (intro amrex_powi_fold) simp_all
  show "amrex_powi T Power x = op_div T (op_one T) (amrex_powi T (- Power) x)" if "Power < 0"
    using that by (simp add: amrex_powi.simps [of T Power x])
  show "amrex_powi exact_ops Power y = y ^ nat Power" if "0 \<le> Power"
    using that by (rule amrex_powi_exact)
  show "unat (amrex_powi unsigned32 Power w) = unat w ^ nat Power mod 2 ^ 32" if "0 \<le> Power"
    using that by (simp add: unsigned32_def amrex_powi_exact unat_power_word)
qed

theorem powi_is_integer_power_witness:
  "amrex_powi unsigned32 5 3 = power_fold unsigned32 5 3 \<and> amrex_powi unsigned32 5 3 = 243 \<and>
   amrex_powi binary64 (- 2) (Finite 0) = Infinite \<and>
   amrex_powi exact_ops 5 (2::real) = 32 \<and> amrex_powi exact_ops 3 (- 2 :: int) = - 8 \<and>
   unat (amrex_powi unsigned32 32 2) = 0"
proof -
  have assoc: "\<forall>a b c. op_mul unsigned32 (op_mul unsigned32 a b) c
                 = op_mul unsigned32 a (op_mul unsigned32 b c)"
    by (simp add: unsigned32_def exact_ops_def mult.assoc)
  have a: "amrex_powi unsigned32 5 3 = power_fold unsigned32 5 3"
    using powi_is_integer_power [of unsigned32 5 3 "0::real" 0] assoc by simp
  have b: "power_fold unsigned32 5 3 = 243"
    by (simp add: eval_nat_numeral unsigned32_def exact_ops_def)
  have "amrex_powi T 2 y = op_mul T y y" for T :: "double ops" and y
    by (simp add: amrex_powi.simps [of T 2 y])
  then have "amrex_powi binary64 2 (Finite 0) = Finite 0"
    by (simp add: binary64_def round64_def fl64_def)
  then have c: "amrex_powi binary64 (- 2) (Finite 0) = Infinite"
    using powi_is_integer_power [of binary64 "- 2" "Finite 0" "0::real" 0]
    by (simp add: binary64_def)
  have d: "amrex_powi exact_ops 5 (2::real) = 32" "amrex_powi exact_ops 3 (- 2 :: int) = - 8"
    using powi_is_integer_power [of unsigned32 5 0 "2::real" 0]
      powi_is_integer_power [of unsigned32 3 0 "- 2 :: int" 0] by simp_all
  have e: "unat (amrex_powi unsigned32 32 2) = 0"
    using powi_is_integer_power [of unsigned32 32 0 "0::real" 2] by simp
  show ?thesis using a b c d e by simp
qed

end
